theory Spec2Isabelle
  imports Complex_Main "HOL-Library.Log_Nat"
begin

section \<open>Numbers\<close>

text \<open>
  A JavaScript number is an IEEE 754 double. A finite double is modelled by the rational
  number it denotes, and \<open>None\<close> stands for a value that is not a finite number
  (\<open>Infinity\<close>, \<open>-Infinity\<close>, \<open>NaN\<close>). The arithmetic of the forecast summaries
  rounds as the doubles do: the exact result of an operation is rounded to the nearest
  double, a tie to the one with the even significand.

  A double is \<open>m * 2 ^ e\<close> with an integer \<open>m\<close> below \<open>2 ^ 53\<close> in absolute value and
  \<open>e \<ge> - 1074\<close>, and it is below \<open>2 ^ 1024\<close> in absolute value. \<open>pow2 e\<close> is
  \<open>2 ^ e\<close> for an integer \<open>e\<close>, and \<open>ilog2 x\<close> is the integer \<open>E\<close> with
  \<open>2 ^ E \<le> x < 2 ^ (E + 1)\<close> for \<open>x > 0\<close>.
\<close>

definition pow2 :: "int \<Rightarrow> rat" where
  "pow2 e = (if 0 \<le> e then of_int (2 ^ nat e) else 1 / of_int (2 ^ nat (- e)))"

definition ilog2 :: "rat \<Rightarrow> int" where
  "ilog2 x = (if 1 \<le> x then bitlen \<lfloor>x\<rfloor> - 1 else - bitlen (\<lceil>1 / x\<rceil> - 1))"

text \<open>The nearest integer, a half to the even neighbour.\<close>

definition round_half_even :: "rat \<Rightarrow> int" where
  "round_half_even y =
     (let m = \<lfloor>y\<rfloor>; r = y - of_int m
      in if r < 1 / 2 then m else if 1 / 2 < r then m + 1 else if even m then m else m + 1)"

text \<open>
  The double nearest to \<open>x\<close>. The spacing of the doubles around \<open>x\<close> is \<open>2 ^ e\<close>,
  where \<open>e\<close> is 52 below the exponent of \<open>x\<close> and not below \<open>- 1074\<close> (the
  subnormal doubles); \<open>m\<close> is the significand. The result is infinite when it reaches
  \<open>2 ^ 1024\<close>, that is when \<open>m\<close> has more than \<open>1024 - e\<close> bits.
\<close>

definition round_double :: "rat \<Rightarrow> rat option" where
  "round_double x =
     (if x = 0 then Some 0
      else
        let e = max (ilog2 \<bar>x\<bar> - 52) (- 1074);
            m = round_half_even (\<bar>x\<bar> / pow2 e)
        in if bitlen m + e \<le> 1024 then Some (sgn x * (of_int m * pow2 e)) else None)"

text \<open>\<open>a + b\<close>, \<open>a * b\<close> and \<open>a / b\<close> of finite doubles (\<open>b\<close> is not zero where the code divides).\<close>

definition add_double :: "rat \<Rightarrow> rat \<Rightarrow> rat option" where
  "add_double a b = round_double (a + b)"

definition times_double :: "rat \<Rightarrow> rat \<Rightarrow> rat option" where
  "times_double a b = round_double (a * b)"

definition divide_double :: "rat \<Rightarrow> rat \<Rightarrow> rat option" where
  "divide_double a b = round_double (a / b)"

section \<open>helpers.js: temperature conversion\<close>


section \<open>helpers.js: daily forecast summaries\<close>

text \<open>
  One entry of the provider's forecast list, with the fields that
  \<open>processForecastData\<close> reads: \<open>item.dt\<close>, \<open>item.main.temp\<close>,
  \<open>item.main.humidity\<close>, \<open>item.wind.speed\<close>, \<open>item.weather[0].main\<close> and
  \<open>item.weather[0].icon\<close>. Its numbers are finite doubles.
\<close>

record forecast_item =
  dt :: rat
  main_temp :: rat
  main_humidity :: rat
  wind_speed :: rat
  weather_main :: string
  weather_icon :: string

text \<open>
  The accumulator kept per calendar day in \<open>dailyData\<close>. A \<open>Date\<close> object is
  modelled by its time value in milliseconds.
\<close>

record day =
  day_date :: rat
  temps :: "rat list"
  conditions :: "string list"
  day_humidity :: "rat list"
  day_wind :: "rat list"
  icons :: "string list"

record summary =
  date :: rat
  tempMin :: "rat option"
  tempMax :: "rat option"
  tempAvg :: "rat option"
  condition :: "string option"
  humidity :: "rat option"
  wind :: "rat option"
  icon :: "string option"

subsection \<open>getMostFrequent\<close>

text \<open>
  \<open>counts\<close> is a plain object, so reading \<open>counts[item]\<close> for a key it does not own
  finds what \<open>Object.prototype\<close> provides under that name: a function, or for
  \<open>__proto__\<close> the prototype object itself. Such a value is truthy, \<open>+ 1\<close> turns it
  into a string, and \<open>>\<close> against a number is false. \<open>NotNum\<close> stands for all these
  values; \<open>Num n\<close> is the number \<open>n\<close>.
\<close>

datatype count = Num nat | NotNum

definition Object_prototype_keys :: "string list" where
  "Object_prototype_keys =
     [''constructor'', ''hasOwnProperty'', ''isPrototypeOf'', ''propertyIsEnumerable'',
      ''toLocaleString'', ''toString'', ''valueOf'', ''__proto__'',
      ''__defineGetter__'', ''__defineSetter__'', ''__lookupGetter__'', ''__lookupSetter__'']"

definition counts_get :: "(string \<rightharpoonup> count) \<Rightarrow> string \<Rightarrow> count option" where
  "counts_get counts item =
     (case counts item of
        Some v \<Rightarrow> Some v
      | None \<Rightarrow> if item \<in> set Object_prototype_keys then Some NotNum else None)"

text \<open>\<open>(counts[item] || 0) + 1\<close>\<close>

definition incremented :: "count option \<Rightarrow> count" where
  "incremented v = (case v of None \<Rightarrow> Num 1 | Some (Num n) \<Rightarrow> Num (n + 1) | Some NotNum \<Rightarrow> NotNum)"

record most_frequent_state =
  counts :: "string \<rightharpoonup> count"
  maxCount :: nat
  maxItem :: "string option"

text \<open>
  One round of the \<open>forEach\<close>: the assignment to \<open>counts[item]\<close>, then the test
  \<open>counts[item] > maxCount\<close>, which holds only when the value read back is a number
  above \<open>maxCount\<close>.
\<close>

definition count_item :: "string \<Rightarrow> most_frequent_state \<Rightarrow> most_frequent_state" where
  "count_item item st =
     (let counts' = (counts st)(item \<mapsto> incremented (counts_get (counts st) item))
      in case counts_get counts' item of
           Some (Num n) \<Rightarrow>
             if n > maxCount st
             then \<lparr>counts = counts', maxCount = n, maxItem = Some item\<rparr>
             else st\<lparr>counts := counts'\<rparr>
         | _ \<Rightarrow> st\<lparr>counts := counts'\<rparr>)"

text \<open>The result is \<open>None\<close> where the source returns \<open>undefined\<close> (\<open>arr[0]\<close> of an empty array).\<close>

definition getMostFrequent :: "string list \<Rightarrow> string option" where
  "getMostFrequent arr =
     maxItem (fold count_item arr
       \<lparr>counts = Map.empty, maxCount = 0,
        maxItem = (case arr of [] \<Rightarrow> None | x # _ \<Rightarrow> Some x)\<rparr>)"

subsection \<open>processForecastData\<close>

text \<open>\<open>Math.min(...xs)\<close> and \<open>Math.max(...xs)\<close>: infinite for no arguments.\<close>

fun Math_min :: "rat list \<Rightarrow> rat option" where
  "Math_min [] = None"
| "Math_min (x # xs) = Some (fold min xs x)"

fun Math_max :: "rat list \<Rightarrow> rat option" where
  "Math_max [] = None"
| "Math_max (x # xs) = Some (fold max xs x)"

text \<open>
  \<open>xs.reduce((a, b) => a + b, 0) / xs.length\<close>: every addition and the division are
  rounded. A sum that is no longer finite stays so, and so does its quotient; the
  quotient is \<open>NaN\<close> for the empty array.
\<close>

definition average :: "rat list \<Rightarrow> rat option" where
  "average xs =
     (if length xs = 0 then None
      else Option.bind (fold (\<lambda>b a. Option.bind a (\<lambda>a. add_double a b)) xs (Some 0))
             (\<lambda>s. divide_double s (of_nat (length xs))))"

text \<open>\<open>Math.round\<close> gives the nearest integer, a half upwards, without rounding error.\<close>

definition Math_round :: "rat \<Rightarrow> rat" where
  "Math_round x = of_int \<lfloor>x + 1 / 2\<rfloor>"

definition push_item :: "forecast_item \<Rightarrow> day \<Rightarrow> day" where
  "push_item item d =
     d\<lparr>temps := temps d @ [main_temp item],
       conditions := conditions d @ [weather_main item],
       day_humidity := day_humidity d @ [main_humidity item],
       day_wind := day_wind d @ [wind_speed item],
       icons := icons d @ [weather_icon item]\<rparr>"

text \<open>
  \<open>dailyData\<close> is an object keyed by \<open>new Date(item.dt * 1000).toDateString()\<close>, the
  calendar date in the local time zone of the host. That function is a parameter of the
  model, \<open>toDateString\<close>, from the time value in milliseconds to a key of any type \<open>'k\<close>.
  The object is an association list in insertion order, which is the order in which
  \<open>Object.values\<close> enumerates keys such as \<open>Sat Jun 01 2024\<close> (they are not array
  indices, and \<open>Object.prototype\<close> has no property of such a name).
\<close>

definition forEach_item :: "(rat \<Rightarrow> 'k) \<Rightarrow> forecast_item \<Rightarrow> ('k \<times> day) list \<Rightarrow> ('k \<times> day) list" where
  "forEach_item toDateString item dailyData =
     (let date = toDateString (dt item * 1000);
          dailyData' =
            (if map_of dailyData date = None
             then dailyData @
               [(date, \<lparr>day_date = dt item * 1000, temps = [], conditions = [],
                        day_humidity = [], day_wind = [], icons = []\<rparr>)]
             else dailyData)
      in map (\<lambda>(k, d). if k = date then (k, push_item item d) else (k, d)) dailyData')"

definition summarise :: "day \<Rightarrow> summary" where
  "summarise d =
     \<lparr>date = day_date d,
      tempMin = Math_min (temps d),
      tempMax = Math_max (temps d),
      tempAvg = average (temps d),
      condition = getMostFrequent (conditions d),
      humidity = map_option Math_round (average (day_humidity d)),
      wind = Option.bind (average (day_wind d))
               (\<lambda>a. Option.bind (times_double a 10) (\<lambda>b. divide_double (Math_round b) 10)),
      icon = getMostFrequent (icons d)\<rparr>"

definition processForecastData :: "(rat \<Rightarrow> 'k) \<Rightarrow> forecast_item list \<Rightarrow> summary list" where
  "processForecastData toDateString forecastList =
     take 5 (map summarise (map snd (fold (forEach_item toDateString) forecastList [])))"


section \<open>storage.js and useCities.js: the saved cities\<close>

text \<open>
  A saved city. Only \<open>lat\<close>, \<open>lon\<close>, \<open>id\<close> and \<open>addedAt\<close> are read or written by the
  code below; \<open>None\<close> is a property that the object does not have. Ids are only ever
  compared for equality, so their type is a parameter \<open>'id\<close>, and so is the function
  \<open>template\<close> that stands for the template literal
  \<^verbatim>\<open>`${city.lat}-${city.lon}-${Date.now()}`\<close>. A time is the number of milliseconds that
  \<open>Date.now()\<close> returns; \<open>new Date().toISOString()\<close> is modelled by the same number.
\<close>

record 'id city =
  name :: string
  country :: string
  lat :: rat
  lon :: rat
  city_id :: "'id option"
  addedAt :: "int option"

text \<open>
  An element of the array of cities. \<open>moveCity\<close> can put \<open>undefined\<close> into the array,
  and \<open>JSON.stringify\<close> writes \<open>undefined\<close> in an array as \<open>null\<close>.
\<close>

datatype 'id entry = City "'id city" | Undefined | Null

datatype error = TypeError

definition json_entry :: "'id entry \<Rightarrow> 'id entry" where
  "json_entry e = (case e of Undefined \<Rightarrow> Null | _ \<Rightarrow> e)"

text \<open>
  \<open>cities.some(c => c.lat === city.lat && c.lon === city.lon)\<close>: reading \<open>c.lat\<close> of
  \<open>undefined\<close> or \<open>null\<close> throws a \<open>TypeError\<close>; \<open>some\<close> stops at the first match.
\<close>

fun some_same_place :: "'id city \<Rightarrow> 'id entry list \<Rightarrow> error + bool" where
  "some_same_place city [] = Inr False"
| "some_same_place city (City c # cs) =
     (if lat c = lat city \<and> lon c = lon city then Inr True else some_same_place city cs)"
| "some_same_place city (Undefined # cs) = Inl TypeError"
| "some_same_place city (Null # cs) = Inl TypeError"

text \<open>\<open>cities.filter(city => city.id !== cityId)\<close>\<close>

fun filter_id :: "'id \<Rightarrow> 'id entry list \<Rightarrow> error + 'id entry list" where
  "filter_id cityId [] = Inr []"
| "filter_id cityId (City c # cs) =
     (case filter_id cityId cs of
        Inl e \<Rightarrow> Inl e
      | Inr cs' \<Rightarrow> Inr (if city_id c \<noteq> Some cityId then City c # cs' else cs'))"
| "filter_id cityId (Undefined # cs) = Inl TypeError"
| "filter_id cityId (Null # cs) = Inl TypeError"

subsection \<open>storage.js\<close>

text \<open>
  The item of \<open>localStorage\<close> under the key \<open>weather_dashboard_cities\<close> is modelled by
  the array that \<open>JSON.parse\<close> reads from it, \<open>None\<close> when there is no item.
  \<open>localStorage.setItem\<close> is taken to succeed.
\<close>

definition getSavedCities :: "'id entry list option \<Rightarrow> 'id entry list" where
  "getSavedCities item = (case item of None \<Rightarrow> [] | Some cs \<Rightarrow> cs)"

definition saveCities :: "'id entry list \<Rightarrow> 'id entry list option" where
  "saveCities cs = Some (map json_entry cs)"

text \<open>
  \<open>addCity\<close> of storage.js; \<open>now\<close> and \<open>now'\<close> are what \<open>Date.now()\<close> and
  \<open>new Date()\<close> give there. The result is the new item (the array that the source
  returns is not used by its caller).
\<close>

definition storage_addCity ::
  "(rat \<Rightarrow> rat \<Rightarrow> int \<Rightarrow> 'id) \<Rightarrow> 'id city \<Rightarrow> int \<Rightarrow> int \<Rightarrow> 'id entry list option
     \<Rightarrow> error + 'id entry list option" where
  "storage_addCity template city now now' item =
     (let cs = getSavedCities item in
      case some_same_place city cs of
        Inl e \<Rightarrow> Inl e
      | Inr exists \<Rightarrow>
          if \<not> exists
          then Inr (saveCities (cs @
            [City (city\<lparr>city_id := Some (template (lat city) (lon city) now),
                         addedAt := Some now'\<rparr>)]))
          else Inr item)"

definition storage_removeCity :: "'id \<Rightarrow> 'id entry list option \<Rightarrow> error + 'id entry list option" where
  "storage_removeCity cityId item =
     (case filter_id cityId (getSavedCities item) of
        Inl e \<Rightarrow> Inl e
      | Inr filteredCities \<Rightarrow> Inr (saveCities filteredCities))"

definition updateCityOrder :: "'id entry list \<Rightarrow> 'id entry list option" where
  "updateCityOrder cs = saveCities cs"

subsection \<open>useCities.js\<close>

text \<open>
  The state of the composable, \<open>cities\<close> and \<open>selectedCities\<close>, together with the
  item of \<open>localStorage\<close>. An operation returns what the source returns, or the error
  it throws, and the state it leaves behind.
\<close>

record 'id useCities =
  cities :: "'id entry list"
  selectedCities :: "'id list"
  storage :: "'id entry list option"

definition maxCities :: nat where
  "maxCities = 6"

definition canAddMore :: "'id useCities \<Rightarrow> bool" where
  "canAddMore s \<longleftrightarrow> length (cities s) < maxCities"

text \<open>
  \<open>addCity\<close> of useCities.js. \<open>t1\<close> and \<open>t2\<close> are the readings of the clock for its
  own \<open>Date.now()\<close> and \<open>new Date()\<close>, \<open>t3\<close> and \<open>t4\<close> those made afterwards by
  \<open>addCity\<close> of storage.js.
\<close>

definition addCity ::
  "(rat \<Rightarrow> rat \<Rightarrow> int \<Rightarrow> 'id) \<Rightarrow> 'id city \<Rightarrow> int \<Rightarrow> int \<Rightarrow> int \<Rightarrow> int \<Rightarrow> 'id useCities
     \<Rightarrow> (error + bool) \<times> 'id useCities" where
  "addCity template city t1 t2 t3 t4 s =
     (if \<not> canAddMore s then (Inr False, s)
      else case some_same_place city (cities s) of
        Inl e \<Rightarrow> (Inl e, s)
      | Inr exists \<Rightarrow>
          if exists then (Inr False, s)
          else
            let newCity = city\<lparr>city_id := Some (template (lat city) (lon city) t1),
                               addedAt := Some t2\<rparr>;
                s1 = s\<lparr>cities := cities s @ [City newCity]\<rparr>
            in case storage_addCity template newCity t3 t4 (storage s1) of
                 Inl e \<Rightarrow> (Inl e, s1)
               | Inr item \<Rightarrow> (Inr True, s1\<lparr>storage := item\<rparr>))"

definition removeCity :: "'id \<Rightarrow> 'id useCities \<Rightarrow> (error + unit) \<times> 'id useCities" where
  "removeCity cityId s =
     (case filter_id cityId (cities s) of
        Inl e \<Rightarrow> (Inl e, s)
      | Inr cs \<Rightarrow>
          let s1 = s\<lparr>cities := cs\<rparr>
          in case storage_removeCity cityId (storage s1) of
               Inl e \<Rightarrow> (Inl e, s1)
             | Inr item \<Rightarrow>
                 (Inr (), s1\<lparr>storage := item,
                             selectedCities := filter (\<lambda>i. i \<noteq> cityId) (selectedCities s1)\<rparr>))"

definition reorderCities :: "'id entry list \<Rightarrow> 'id useCities \<Rightarrow> 'id useCities" where
  "reorderCities newOrder s = s\<lparr>cities := newOrder, storage := updateCityOrder newOrder\<rparr>"

text \<open>
  \<open>Array.prototype.splice\<close> counts a negative start from the end of the array and
  clamps it to the array; the indices are integers.
\<close>

definition splice_start :: "int \<Rightarrow> nat \<Rightarrow> nat" where
  "splice_start start len =
     (if start < 0 then nat (max (int len + start) 0) else min (nat start) len)"

text \<open>
  \<open>const [movedCity] = citiesArray.splice(fromIndex, 1)\<close> removes at most one element;
  \<open>movedCity\<close> is \<open>undefined\<close> when it removes none.
\<close>

definition moveCity :: "int \<Rightarrow> int \<Rightarrow> 'id useCities \<Rightarrow> 'id useCities" where
  "moveCity fromIndex toIndex s =
     (let citiesArray = cities s;
          a = splice_start fromIndex (length citiesArray);
          removed = take 1 (drop a citiesArray);
          citiesArray' = take a citiesArray @ drop (a + 1) citiesArray;
          movedCity = (case removed of [] \<Rightarrow> Undefined | c # _ \<Rightarrow> c);
          b = splice_start toIndex (length citiesArray');
          citiesArray'' = take b citiesArray' @ [movedCity] @ drop b citiesArray'
      in reorderCities citiesArray'' s)"

text \<open>\<open>indexOf\<close>: the index of the first occurrence, \<open>-1\<close> when there is none.\<close>

fun indexOf :: "'a list \<Rightarrow> 'a \<Rightarrow> int" where
  "indexOf [] y = - 1"
| "indexOf (x # xs) y =
     (if x = y then 0 else let i = indexOf xs y in if i = - 1 then - 1 else i + 1)"

definition toggleCitySelection :: "'id \<Rightarrow> 'id useCities \<Rightarrow> 'id useCities" where
  "toggleCitySelection cityId s =
     (let index = indexOf (selectedCities s) cityId
      in if index = - 1
         then s\<lparr>selectedCities := selectedCities s @ [cityId]\<rparr>
         else s\<lparr>selectedCities :=
                  take (nat index) (selectedCities s) @ drop (nat index + 1) (selectedCities s)\<rparr>)"

definition reloadCities :: "'id useCities \<Rightarrow> 'id useCities" where
  "reloadCities s = s\<lparr>cities := getSavedCities (storage s)\<rparr>"

section \<open>Notions used to state the properties\<close>

subsection \<open>Calendar groups\<close>

text \<open>The distinct elements of a list, in the order of their first occurrence.\<close>

primrec first_seen :: "'a list \<Rightarrow> 'a list" where
  "first_seen [] = []"
| "first_seen (x # xs) = x # removeAll x (first_seen xs)"

text \<open>The calendar date of a forecast item, and the items of a list that fall on a date.\<close>

definition date_key :: "(rat \<Rightarrow> 'k) \<Rightarrow> forecast_item \<Rightarrow> 'k" where
  "date_key toDateString item = toDateString (dt item * 1000)"

definition group_of :: "(rat \<Rightarrow> 'k) \<Rightarrow> forecast_item list \<Rightarrow> 'k \<Rightarrow> forecast_item list" where
  "group_of toDateString forecastList k =
     filter (\<lambda>item. date_key toDateString item = k) forecastList"

text \<open>
  The accumulator of a non-empty group of items: the date of its first item and, field
  by field, the values of its items in their order.
\<close>

definition day_of_group :: "forecast_item list \<Rightarrow> day" where
  "day_of_group g =
     \<lparr>day_date = dt (hd g) * 1000, temps = map main_temp g,
      conditions = map weather_main g, day_humidity = map main_humidity g,
      day_wind = map wind_speed g, icons = map weather_icon g\<rparr>"

subsection \<open>Minimum, mean and maximum\<close>

text \<open>
  The order of the three temperatures of a summary as the specification words it:
  \<open>tempMin \<le> tempAvg \<le> tempMax\<close>, all three finite.
\<close>

definition temps_ordered :: "summary \<Rightarrow> bool" where
  "temps_ordered d =
     (case (tempMin d, tempAvg d, tempMax d) of
        (Some lo, Some av, Some hi) \<Rightarrow> lo \<le> av \<and> av \<le> hi
      | _ \<Rightarrow> False)"

text \<open>
  The bounds on the error of one rounding: half a unit in the last place of a double,
  relative to the value, and half the spacing of the subnormal doubles.
\<close>

definition roundoff :: rat where
  "roundoff = 1 / 2 ^ 53"

definition underflow :: rat where
  "underflow = 1 / 2 ^ 1075"

subsection \<open>Dominant values\<close>

text \<open>The index of the first occurrence of a value in a list (its length when absent).\<close>

primrec first_index :: "'a list \<Rightarrow> 'a \<Rightarrow> nat" where
  "first_index [] y = 0"
| "first_index (x # xs) y = (if x = y then 0 else Suc (first_index xs y))"

text \<open>
  The dominant value as the specification words it: a value of the greatest frequency
  and, among the values of that frequency, the one that occurs first.
\<close>

definition dominant_first_seen :: "string list \<Rightarrow> string \<Rightarrow> bool" where
  "dominant_first_seen arr r \<longleftrightarrow>
     r \<in> set arr \<and>
     (\<forall>y \<in> set arr. count_list arr y \<le> count_list arr r) \<and>
     (\<forall>y \<in> set arr. count_list arr y = count_list arr r \<longrightarrow>
        first_index arr r \<le> first_index arr y)"

text \<open>
  What holds of the state of \<open>getMostFrequent\<close> after the items \<open>p\<close>: \<open>counts\<close>
  holds the number of occurrences of each item, \<open>maxCount\<close> is the greatest of them,
  and \<open>maxItem\<close> is the item whose count reached \<open>maxCount\<close> first.
\<close>

definition counted :: "string list \<Rightarrow> most_frequent_state \<Rightarrow> bool" where
  "counted p st \<longleftrightarrow>
     (\<forall>y. counts st y = (if y \<in> set p then Some (Num (count_list p y)) else None)) \<and>
     (\<forall>y. count_list p y \<le> maxCount st) \<and>
     (p = [] \<longrightarrow> maxCount st = 0) \<and>
     (p \<noteq> [] \<longrightarrow> (\<exists>q r t. p = q @ r # t \<and> maxItem st = Some r \<and>
        count_list (q @ [r]) r = maxCount st \<and> (\<forall>y. count_list q y < maxCount st)))"

subsection \<open>Saved cities\<close>

text \<open>An array that holds city objects only.\<close>

definition all_cities :: "'id entry list \<Rightarrow> bool" where
  "all_cities es \<longleftrightarrow> (\<forall>e \<in> set es. e \<noteq> Undefined \<and> e \<noteq> Null)"

text \<open>An entry that is a city at the coordinates of \<open>city\<close>; an entry that is a city with a given id.\<close>

definition same_place :: "'id city \<Rightarrow> 'id entry \<Rightarrow> bool" where
  "same_place city e = (case e of City c \<Rightarrow> lat c = lat city \<and> lon c = lon city | _ \<Rightarrow> False)"

definition has_id :: "'id \<Rightarrow> 'id entry \<Rightarrow> bool" where
  "has_id cityId e = (case e of City c \<Rightarrow> city_id c = Some cityId | _ \<Rightarrow> False)"

text \<open>An entry that is a city whose id the template built from the city's own coordinates.\<close>

definition minted :: "(rat \<Rightarrow> rat \<Rightarrow> int \<Rightarrow> 'id) \<Rightarrow> 'id entry \<Rightarrow> bool" where
  "minted template e =
     (case e of City c \<Rightarrow> (\<exists>t. city_id c = Some (template (lat c) (lon c) t)) | _ \<Rightarrow> False)"

text \<open>
  The stored array is the array in memory: \<open>reloadCities\<close> would read what
  \<open>cities\<close> holds.
\<close>

definition in_sync :: "'id useCities \<Rightarrow> bool" where
  "in_sync s \<longleftrightarrow> getSavedCities (storage s) = cities s"

text \<open>The list \<open>ys\<close> is the list \<open>xs\<close> with \<open>e\<close> inserted at position \<open>i\<close>.\<close>

definition inserted_at :: "'a list \<Rightarrow> nat \<Rightarrow> 'a \<Rightarrow> 'a list \<Rightarrow> bool" where
  "inserted_at xs i e ys \<longleftrightarrow> i \<le> length xs \<and> ys = take i xs @ e # drop i xs"

section \<open>Example inputs\<close>

text \<open>A calendar for the examples: the days of UTC, numbered from the epoch.\<close>

definition utc_day :: "rat \<Rightarrow> int" where
  "utc_day ms = \<lfloor>ms / 86400000\<rfloor>"

definition sample :: "rat \<Rightarrow> rat \<Rightarrow> string \<Rightarrow> forecast_item" where
  "sample t x c = \<lparr>dt = t, main_temp = x, main_humidity = 50, wind_speed = 3,
                   weather_main = c, weather_icon = ''01d''\<rparr>"

text \<open>Eight samples at three-hour steps on 2024-06-01 (UTC day 19875).\<close>

definition june_first :: "forecast_item list" where
  "june_first =
     [sample 1717200000 18 ''Clear'', sample 1717210800 20 ''Clear'',
      sample 1717221600 22 ''Clouds'', sample 1717232400 24 ''Clear'',
      sample 1717243200 23 ''Rain'', sample 1717254000 21 ''Clear'',
      sample 1717264800 19 ''Clear'', sample 1717275600 17 ''Clear'']"

text \<open>
  Three samples on 2024-06-01 with the temperature 0.1, and three with 0.7: the doubles
  that these decimal numbers denote.
\<close>

definition three_tenths :: "forecast_item list" where
  "three_tenths =
     [sample 1717200000 (3602879701896397 / 36028797018963968) ''Clear'',
      sample 1717210800 (3602879701896397 / 36028797018963968) ''Clear'',
      sample 1717221600 (3602879701896397 / 36028797018963968) ''Clear'']"

definition three_of_seven_tenths :: "forecast_item list" where
  "three_of_seven_tenths =
     [sample 1717200000 (3152519739159347 / 4503599627370496) ''Clear'',
      sample 1717210800 (3152519739159347 / 4503599627370496) ''Clear'',
      sample 1717221600 (3152519739159347 / 4503599627370496) ''Clear'']"

text \<open>Two conditions that occur twice each.\<close>

definition tie :: "string list" where
  "tie = [''Clear'', ''Rain'', ''Rain'', ''Clear'']"

text \<open>
  Eight samples on seven days, not in chronological order: UTC days 19877, 19875, 19876,
  19875 again, 19878, 19879, 19880 and 19881.
\<close>

definition seven_days :: "forecast_item list" where
  "seven_days =
     [sample 1717372800 30 ''Clear'', sample 1717200000 10 ''Rain'',
      sample 1717286400 20 ''Clouds'', sample 1717210800 12 ''Rain'',
      sample 1717459200 40 ''Clear'', sample 1717545600 50 ''Clear'',
      sample 1717632000 60 ''Clear'', sample 1717718400 70 ''Clear'']"

text \<open>
  Cities for the examples. Their ids are triples of latitude, longitude and time, built
  by \<open>triple\<close>; \<open>saved c t\<close> is the city \<open>c\<close> as \<open>addCity\<close> stores it at time \<open>t\<close>.
\<close>

definition triple :: "rat \<Rightarrow> rat \<Rightarrow> int \<Rightarrow> rat \<times> rat \<times> int" where
  "triple a b t = (a, b, t)"

definition london :: "(rat \<times> rat \<times> int) city" where
  "london = \<lparr>name = ''London'', country = ''GB'', lat = 51.5, lon = - 0.12,
             city_id = None, addedAt = None\<rparr>"

definition paris :: "(rat \<times> rat \<times> int) city" where
  "paris = \<lparr>name = ''Paris'', country = ''FR'', lat = 48.85, lon = 2.35,
            city_id = None, addedAt = None\<rparr>"

definition place :: "nat \<Rightarrow> (rat \<times> rat \<times> int) city" where
  "place n = \<lparr>name = ''Place'', country = ''XX'', lat = of_nat n, lon = 0,
              city_id = None, addedAt = None\<rparr>"

definition saved :: "(rat \<times> rat \<times> int) city \<Rightarrow> int \<Rightarrow> (rat \<times> rat \<times> int) entry" where
  "saved c t = City (c\<lparr>city_id := Some (triple (lat c) (lon c) t), addedAt := Some t\<rparr>)"

definition dashboard :: "(rat \<times> rat \<times> int) entry list \<Rightarrow> (rat \<times> rat \<times> int) useCities" where
  "dashboard cs = \<lparr>cities = cs, selectedCities = [], storage = Some cs\<rparr>"

definition empty_dashboard :: "(rat \<times> rat \<times> int) useCities" where
  "empty_dashboard = \<lparr>cities = [], selectedCities = [], storage = None\<rparr>"

definition one_city :: "(rat \<times> rat \<times> int) useCities" where
  "one_city = dashboard [saved london 1000]"

definition three_cities :: "(rat \<times> rat \<times> int) useCities" where
  "three_cities =
     \<lparr>cities = [saved london 1000, saved paris 2000, saved (place 3) 3000],
      selectedCities = [triple (lat london) (lon london) 1000, triple (lat paris) (lon paris) 2000],
      storage = Some [saved london 1000, saved paris 2000, saved (place 3) 3000]\<rparr>"

definition six_cities :: "(rat \<times> rat \<times> int) useCities" where
  "six_cities = dashboard (map (\<lambda>n. saved (place n) (int n)) [1..<7])"

definition two_selected :: "nat useCities" where
  "two_selected = \<lparr>cities = [], selectedCities = [1, 2], storage = None\<rparr>"

section \<open>Temperature conversion: properties\<close>



section \<open>Rounding to doubles\<close>

lemma pow2_power_int: "pow2 e = power_int 2 e"
  by (simp add: pow2_def power_int_def power_inverse inverse_eq_divide power_one_over)

lemma pow2_pos: "0 < pow2 e"
  by (simp add: pow2_power_int zero_less_power_int)

lemma pow2_add: "pow2 (a + b) = pow2 a * pow2 b"
  by (simp add: pow2_power_int power_int_add)

lemma pow2_mono: "a \<le> b \<Longrightarrow> pow2 a \<le> pow2 b"
  by (simp add: pow2_power_int power_int_increasing)

lemma pow2_nat: "pow2 (int n) = 2 ^ n"
  by (simp add: pow2_power_int)

lemma pow2_neg: "pow2 (- int n) = 1 / 2 ^ n"
  by (simp add: pow2_power_int power_int_minus_divide)

lemma round_half_even_near: "\<bar>of_int (round_half_even y) - y\<bar> \<le> 1 / 2"
proof -
  have "of_int \<lfloor>y\<rfloor> \<le> y" and "y < of_int \<lfloor>y\<rfloor> + 1"
    by linarith+
  then show ?thesis
    unfolding round_half_even_def Let_def by (simp add: abs_le_iff)
qed

lemma ilog2_lower:
  assumes "0 < x"
  shows "pow2 (ilog2 x) \<le> x"
proof (cases "1 \<le> x")
  case True
  then have pos: "0 < \<lfloor>x\<rfloor>" by linarith
  from bitlen_bounds [OF pos] have "2 ^ nat (bitlen \<lfloor>x\<rfloor> - 1) \<le> \<lfloor>x\<rfloor>" by blast
  then have "(of_int (2 ^ nat (bitlen \<lfloor>x\<rfloor> - 1)) :: rat) \<le> of_int \<lfloor>x\<rfloor>"
    by (simp only: of_int_le_iff)
  also have "\<dots> \<le> x" by linarith
  finally have "(of_int (2 ^ nat (bitlen \<lfloor>x\<rfloor> - 1)) :: rat) \<le> x" .
  moreover have "1 \<le> bitlen \<lfloor>x\<rfloor>"
    using pos bitlen_eq_zero_iff [of "\<lfloor>x\<rfloor>"] bitlen_nonneg [of "\<lfloor>x\<rfloor>"] by linarith
  ultimately show ?thesis
    using True by (simp add: ilog2_def pow2_def)
next
  case False
  let ?c = "\<lceil>1 / x\<rceil>"
  let ?k = "bitlen (?c - 1)"
  from False assms have "1 < 1 / x" by (simp add: field_simps)
  then have c: "2 \<le> ?c" by linarith
  then have pos: "0 < ?c - 1" by linarith
  from bitlen_bounds [OF pos] have "?c - 1 < 2 ^ nat ?k" by blast
  then have "?c \<le> 2 ^ nat ?k" by linarith
  then have "(of_int ?c :: rat) \<le> of_int (2 ^ nat ?k)"
    by (simp only: of_int_le_iff)
  moreover have "1 / x \<le> of_int ?c" by linarith
  ultimately have "1 / x \<le> of_int (2 ^ nat ?k)" by linarith
  then have "1 / of_int (2 ^ nat ?k) \<le> x"
    using assms by (simp add: field_simps)
  moreover have "0 \<le> ?k" by (rule bitlen_nonneg)
  moreover have "?k \<noteq> 0"
    using pos bitlen_eq_zero_iff [of "?c - 1"] by linarith
  ultimately show ?thesis
    using False by (simp add: ilog2_def pow2_def)
qed

lemma ilog2_upper:
  assumes "0 < x"
  shows "x < pow2 (ilog2 x + 1)"
proof (cases "1 \<le> x")
  case True
  then have pos: "0 < \<lfloor>x\<rfloor>" by linarith
  from bitlen_bounds [OF pos] have "\<lfloor>x\<rfloor> < 2 ^ nat (bitlen \<lfloor>x\<rfloor>)" by blast
  then have "\<lfloor>x\<rfloor> + 1 \<le> 2 ^ nat (bitlen \<lfloor>x\<rfloor>)" by linarith
  then have "(of_int (\<lfloor>x\<rfloor> + 1) :: rat) \<le> of_int (2 ^ nat (bitlen \<lfloor>x\<rfloor>))"
    by (simp only: of_int_le_iff)
  moreover have "x < of_int (\<lfloor>x\<rfloor> + 1)" by simp linarith
  ultimately have "x < of_int (2 ^ nat (bitlen \<lfloor>x\<rfloor>))" by linarith
  moreover have "0 \<le> bitlen \<lfloor>x\<rfloor>" by (rule bitlen_nonneg)
  ultimately show ?thesis
    using True by (simp add: ilog2_def pow2_def)
next
  case False
  let ?c = "\<lceil>1 / x\<rceil>"
  let ?k = "bitlen (?c - 1)"
  from False assms have "1 < 1 / x" by (simp add: field_simps)
  then have c: "2 \<le> ?c" by linarith
  then have pos: "0 < ?c - 1" by linarith
  have k: "1 \<le> ?k"
    using pos bitlen_eq_zero_iff [of "?c - 1"] bitlen_nonneg [of "?c - 1"] by linarith
  from bitlen_bounds [OF pos] have "2 ^ nat (?k - 1) \<le> ?c - 1" by blast
  then have "(of_int (2 ^ nat (?k - 1)) :: rat) \<le> of_int (?c - 1)"
    by (simp only: of_int_le_iff)
  moreover have "of_int (?c - 1) < 1 / x" by simp linarith
  ultimately have lt: "of_int (2 ^ nat (?k - 1)) < 1 / x" by linarith
  have p: "(0::rat) < of_int (2 ^ nat (?k - 1))" by simp
  from lt have "x * of_int (2 ^ nat (?k - 1)) < 1"
    using assms by (simp add: field_simps)
  then have "x < 1 / of_int (2 ^ nat (?k - 1))"
    using p by (simp add: field_simps)
  show ?thesis
  proof (cases "?k = 1")
    case True
    with False show ?thesis by (simp add: ilog2_def pow2_def)
  next
    case k1: False
    with k have "- ?k + 1 < 0" by linarith
    moreover have "nat (- (- ?k + 1)) = nat (?k - 1)" by simp
    ultimately show ?thesis
      using False \<open>x < 1 / of_int (2 ^ nat (?k - 1))\<close>
      by (simp add: ilog2_def pow2_def)
  qed
qed


lemma round_half_even_nonneg: "0 \<le> y \<Longrightarrow> 0 \<le> round_half_even y"
  unfolding round_half_even_def Let_def by (auto simp: zero_le_floor)

lemma round_double_error:
  assumes "\<bar>x\<bar> < 2 ^ 1023"
  shows "\<exists>y. round_double x = Some y \<and> \<bar>y - x\<bar> \<le> \<bar>x\<bar> / 2 ^ 53 + 1 / 2 ^ 1075"
proof (cases "x = 0")
  case True
  then show ?thesis by (simp add: round_double_def)
next
  case False
  define a where "a = \<bar>x\<bar>"
  define E where "E = ilog2 a"
  define e where "e = max (E - 52) (- 1074)"
  define q where "q = a / pow2 e"
  define m where "m = round_half_even q"
  have a: "0 < a" using False by (simp add: a_def)
  have lo: "pow2 E \<le> a" and hi: "a < pow2 (E + 1)"
    unfolding E_def using a by (rule ilog2_lower, rule ilog2_upper)
  have E: "E \<le> 1022"
  proof (rule ccontr)
    assume "\<not> E \<le> 1022"
    then have "pow2 1023 \<le> pow2 E" by (intro pow2_mono) simp
    also note lo
    finally show False using assms pow2_nat [of 1023] by (simp add: a_def)
  qed
  then have e: "e \<le> 970" by (simp add: e_def)
  have pe: "0 < pow2 e" by (rule pow2_pos)
  have q0: "0 \<le> q" using a pe by (simp add: q_def)
  have "q < pow2 (E + 1) / pow2 e"
    using hi pe by (simp add: q_def divide_strict_right_mono)
  also have "pow2 (E + 1) / pow2 e = pow2 (E + 1 - e)"
    using pow2_add [of "E + 1 - e" e] pe by (simp add: field_simps)
  also have "\<dots> \<le> pow2 53"
    by (intro pow2_mono) (simp add: e_def)
  finally have q53: "q < 2 ^ 53"
    using pow2_nat [of 53] by simp
  have near: "\<bar>of_int m - q\<bar> \<le> 1 / 2"
    unfolding m_def by (rule round_half_even_near)
  have m0: "0 \<le> m"
    unfolding m_def using q0 by (rule round_half_even_nonneg)
  have "of_int m - q \<le> 1 / 2"
    using near by linarith
  with q53 have "(of_int m :: rat) < of_int (2 ^ 53 + 1)"
    by simp
  then have "m < 2 ^ 53 + 1"
    by (simp only: of_int_less_iff)
  then have m53: "m \<le> 2 ^ 53" by simp
  then have "m < 2 ^ nat 54" by simp
  then have "bitlen m \<le> 54"
    by (simp only: bitlen_le_iff_power) simp
  with e have fin: "bitlen m + e \<le> 1024" by linarith
  have rd: "round_double x = Some (sgn x * (of_int m * pow2 e))"
    using False fin
    by (simp add: round_double_def Let_def a_def E_def e_def q_def m_def)
  have "\<bar>sgn x * (of_int m * pow2 e) - x\<bar> = \<bar>of_int m * pow2 e - a\<bar>"
  proof (cases "0 < x")
    case True
    then show ?thesis by (simp add: a_def)
  next
    case neg: False
    with False have "x < 0" by simp
    then have "sgn x * (of_int m * pow2 e) - x = - (of_int m * pow2 e - a)"
      by (simp add: a_def)
    then show ?thesis by (simp only: abs_minus)
  qed
  also have "of_int m * pow2 e - a = pow2 e * (of_int m - q)"
    using pe by (simp add: q_def field_simps)
  also have "\<bar>\<dots>\<bar> = pow2 e * \<bar>of_int m - q\<bar>"
    using pe by (simp add: abs_mult)
  also have "\<dots> \<le> pow2 e * (1 / 2)"
    using near pe by (intro mult_left_mono) simp_all
  also have "\<dots> \<le> a / 2 ^ 53 + 1 / 2 ^ 1075"
  proof (cases "E - 52 \<le> - 1074")
    case True
    then have "e = - 1074" by (simp add: e_def)
    then have "pow2 e * (1 / 2) = 1 / 2 ^ 1075"
      using pow2_neg [of 1074] by simp
    then show ?thesis using a by simp
  next
    case False
    then have "e = E - 52" by (simp add: e_def)
    then have "pow2 E = pow2 e * 2 ^ 52"
      using pow2_add [of e 52] pow2_nat [of 52] by simp
    then have "pow2 e * (1 / 2) = pow2 E / 2 ^ 53" by simp
    also have "\<dots> \<le> a / 2 ^ 53"
      using lo by (simp add: divide_right_mono)
    finally show ?thesis by simp
  qed
  finally show ?thesis
    using rd by (simp add: a_def)
qed


text \<open>
  The doubles that 0.1, 0.7, 20.5 and \<open>- 1 / 3\<close> round to, and two ties above \<open>2 ^ 53\<close>,
  where the doubles are the even integers.
\<close>

lemma round_double_examples:
  "round_double (1 / 10) = Some (3602879701896397 / 36028797018963968)"
  "round_double (7 / 10) = Some (3152519739159347 / 4503599627370496)"
  "round_double (41 / 2) = Some (41 / 2)"
  "round_double (- 1 / 3) = Some (- (6004799503160661 / 18014398509481984))"
  "round_double 9007199254740993 = Some 9007199254740992"
  "round_double 9007199254740995 = Some 9007199254740996"
  by code_simp+

text \<open>
  The mean of three times 0.1 is 0.10000000000000002, that of three times 0.7 is
  0.6999999999999998, and that of seven times 12.34 is 12.340000000000002.
\<close>

lemma average_examples:
  "average (replicate 3 (3602879701896397 / 36028797018963968)) =
     Some (7205759403792795 / 72057594037927936)"
  "average (replicate 3 (3152519739159347 / 4503599627370496)) =
     Some (6305039478318693 / 9007199254740992)"
  "average (replicate 7 (3473401212609495 / 281474976710656)) =
     Some (6946802425218991 / 562949953421312)"
  by code_simp+

lemma abs_sum_list_le:
  "\<forall>x\<in>set xs. \<bar>x\<bar> \<le> M \<Longrightarrow> \<bar>sum_list xs\<bar> \<le> of_nat (length xs) * (M::rat)"
proof (induction xs)
  case Nil
  show ?case by simp
next
  case (Cons x xs)
  then have "\<bar>sum_list xs\<bar> \<le> of_nat (length xs) * M" and "\<bar>x\<bar> \<le> M" by simp_all
  then show ?case by (simp add: algebra_simps)
qed

lemma slack_times:
  fixes K N M u h :: rat
  assumes "0 \<le> M" "0 \<le> K" "K \<le> N" "0 \<le> u" "0 \<le> h" "2 * N * u \<le> 1"
  shows "u * (K * (2 * (u * N * M) + 2 * h)) \<le> u * N * M + h"
proof -
  let ?w = "u * N * M + h"
  have N: "0 \<le> N" using assms by linarith
  have w: "0 \<le> ?w" using assms N by simp
  have "K * u \<le> N * u" using assms by (intro mult_right_mono)
  then have c: "2 * K * u \<le> 1" using assms by linarith
  have c0: "0 \<le> 2 * K * u" using assms by simp
  have "(2 * K * u) * ?w \<le> ?w"
    using w c0 c by (rule mult_left_le_one_le)
  moreover have "u * (K * (2 * (u * N * M) + 2 * h)) = (2 * K * u) * ?w"
    by (simp add: algebra_simps)
  ultimately show ?thesis by (simp only:)
qed


lemma round_double_near:
  "\<bar>x\<bar> < 2 ^ 1023 \<Longrightarrow>
     \<exists>y. round_double x = Some y \<and> \<bar>y - x\<bar> \<le> roundoff * \<bar>x\<bar> + underflow"
  using round_double_error [of x] by (simp add: roundoff_def underflow_def)

lemma roundoff_facts:
  "0 < roundoff" "0 \<le> underflow" "underflow \<le> roundoff" "2 * 2 ^ 20 * roundoff \<le> 1"
  by (simp_all add: roundoff_def underflow_def)

lemma sum_double_error:
  fixes M :: rat
  assumes "0 \<le> M" "M \<le> 2 ^ 1000" "n \<le> 2 ^ 20"
  shows "(\<forall>x\<in>set xs. \<bar>x\<bar> \<le> M) \<Longrightarrow> length xs \<le> n \<Longrightarrow>
    \<exists>S. fold (\<lambda>b a. Option.bind a (\<lambda>a. add_double a b)) xs (Some 0) = Some S \<and>
        \<bar>S - sum_list xs\<bar> \<le>
          of_nat (length xs) * (2 * (roundoff * of_nat n * M) + 2 * underflow)"
proof (induction xs rule: rev_induct)
  case Nil
  show ?case by simp
next
  case (snoc x xs)
  define K :: rat where "K = of_nat (length xs)"
  define N :: rat where "N = of_nat n"
  define u where "u = roundoff"
  define h where "h = underflow"
  define d where "d = 2 * (u * N * M) + 2 * h"
  define T where "T = sum_list xs"
  define P where "P = N * M"
  define Q where "Q = K * d"
  from snoc.prems have xs: "\<forall>x\<in>set xs. \<bar>x\<bar> \<le> M" and x: "\<bar>x\<bar> \<le> M"
    and len: "length xs + 1 \<le> n" by simp_all
  then have "length xs \<le> n" by simp
  with snoc.IH xs obtain S
    where S: "fold (\<lambda>b a. Option.bind a (\<lambda>a. add_double a b)) xs (Some 0) = Some S"
      and err: "\<bar>S - T\<bar> \<le> Q"
    unfolding Q_def K_def d_def u_def N_def h_def T_def by blast
  have K0: "0 \<le> K" by (simp add: K_def)
  have KN: "K + 1 \<le> N"
    using len unfolding K_def N_def by (metis of_nat_1 of_nat_add of_nat_le_iff)
  have N20: "N \<le> 2 ^ 20"
    using assms(3) unfolding N_def by (metis of_nat_le_iff of_nat_numeral of_nat_power)
  have N0: "0 \<le> N" by (simp add: N_def)
  have u0: "0 < u" and h0: "0 \<le> h" and hu: "h \<le> u"
    by (simp_all add: u_def h_def roundoff_facts)
  have "N * u \<le> 2 ^ 20 * u"
    using N20 u0 by (intro mult_right_mono) simp_all
  then have Nu: "2 * N * u \<le> 1"
    using roundoff_facts(4) by (simp add: u_def)
  have uQ: "u * Q \<le> u * P + h"
    using slack_times [of M K N u h] assms(1) K0 KN u0 h0 Nu
    by (simp add: Q_def d_def P_def mult.assoc)
  have T: "\<bar>T\<bar> \<le> K * M"
    unfolding T_def K_def using xs by (rule abs_sum_list_le)
  have "(K + 1) * M \<le> N * M"
    using KN assms(1) by (intro mult_right_mono)
  then have KM: "K * M + M \<le> P"
    by (simp add: P_def algebra_simps)
  have P0: "0 \<le> P" using N0 assms(1) by (simp add: P_def)
  have "N * M \<le> 2 ^ 20 * 2 ^ 1000"
    using N20 assms(1,2) N0 by (intro mult_mono) simp_all
  then have P1020: "P \<le> 2 ^ 1020"
    by (simp add: P_def)
  have "u * Q \<le> u * (P + 1)"
    using uQ hu by (simp add: algebra_simps)
  then have Q1: "Q \<le> P + 1"
    using u0 by (simp only: mult_le_cancel_left_pos)
  have y: "\<bar>S + x\<bar> \<le> P + Q"
    using err T x KM by linarith
  then have "\<bar>S + x\<bar> \<le> 2 * 2 ^ 1020 + 1"
    using Q1 P1020 by linarith
  then have "\<bar>S + x\<bar> < 2 ^ 1023" by simp
  from round_double_near [OF this] obtain S'
    where S': "round_double (S + x) = Some S'"
      and near: "\<bar>S' - (S + x)\<bar> \<le> u * \<bar>S + x\<bar> + h"
    unfolding u_def h_def by blast
  have "u * \<bar>S + x\<bar> \<le> u * (P + Q)"
    using y u0 by (intro mult_left_mono) simp_all
  then have "u * \<bar>S + x\<bar> \<le> u * P + u * Q"
    by (simp add: algebra_simps)
  with near uQ err have "\<bar>S' - (T + x)\<bar> \<le> (2 * (u * P) + 2 * h) + Q"
    by linarith
  also have "2 * (u * P) + 2 * h = d"
    by (simp add: d_def P_def mult.assoc)
  also have "d + Q = (K + 1) * d"
    by (simp add: Q_def algebra_simps)
  finally have "\<bar>S' - sum_list (xs @ [x])\<bar> \<le> of_nat (length (xs @ [x])) * d"
    by (simp add: T_def K_def add.commute)
  moreover have "fold (\<lambda>b a. Option.bind a (\<lambda>a. add_double a b)) (xs @ [x]) (Some 0) = Some S'"
    using S S' by (simp add: add_double_def)
  ultimately show ?case
    unfolding d_def u_def N_def h_def by blast
qed


lemma average_near:
  fixes M :: rat
  assumes ne: "xs \<noteq> []" and len: "length xs \<le> 2 ^ 20"
    and bound: "\<forall>x\<in>set xs. \<bar>x\<bar> \<le> M" and big: "M \<le> 2 ^ 1000"
  shows "\<exists>av. average xs = Some av \<and>
           \<bar>av - sum_list xs / of_nat (length xs)\<bar> \<le>
             of_nat (length xs + 1) * M / 2 ^ 52 + 1 / 2 ^ 1073"
proof -
  define N :: rat where "N = of_nat (length xs)"
  define u where "u = roundoff"
  define h where "h = underflow"
  define d where "d = 2 * (u * N * M) + 2 * h"
  define T where "T = sum_list xs"
  define uM where "uM = u * M"
  obtain x where "x \<in> set xs" using ne by (cases xs) auto
  with bound have "\<bar>x\<bar> \<le> M" by blast
  then have M0: "0 \<le> M" by linarith
  from sum_double_error [OF M0 big len bound order_refl] obtain S
    where S: "fold (\<lambda>b a. Option.bind a (\<lambda>a. add_double a b)) xs (Some 0) = Some S"
      and err: "\<bar>S - T\<bar> \<le> N * d"
    unfolding N_def d_def u_def h_def T_def by blast
  have N1: "1 \<le> N"
    using ne unfolding N_def by (cases xs) simp_all
  then have N0: "0 < N" by linarith
  have N20: "N \<le> 2 ^ 20"
    using len unfolding N_def by (metis of_nat_le_iff of_nat_numeral of_nat_power)
  have u0: "0 < u" and h0: "0 \<le> h" and hu: "h \<le> u"
    by (simp_all add: u_def h_def roundoff_facts)
  have "N * u \<le> 2 ^ 20 * u"
    using N20 u0 by (intro mult_right_mono) simp_all
  then have Nu: "2 * N * u \<le> 1"
    using roundoff_facts(4) by (simp add: u_def)
  have u1: "2 * u \<le> 1"
    by (simp add: u_def roundoff_def)
  have uM0: "0 \<le> uM" using u0 M0 by (simp add: uM_def)
  have "(2 * N * u) * uM \<le> uM"
    using uM0 Nu N0 u0 by (intro mult_left_le_one_le) simp_all
  then have t1: "2 * (u * (u * N * M)) \<le> uM"
    by (simp add: uM_def algebra_simps)
  have "(2 * u) * h \<le> h"
    using h0 u1 u0 by (intro mult_left_le_one_le) simp_all
  then have t2: "u * (2 * h) \<le> h"
    by (simp add: algebra_simps)
  have ud: "u * d \<le> uM + h"
    using t1 t2 by (simp add: d_def algebra_simps)
  have "(2 * N * u) * M \<le> M"
    using M0 Nu N0 u0 by (intro mult_left_le_one_le) simp_all
  then have "2 * (u * N * M) \<le> M"
    by (simp add: algebra_simps)
  moreover have "2 * h \<le> 1"
    by (simp add: h_def underflow_def)
  ultimately have dM: "d \<le> M + 1"
    by (simp add: d_def)
  have Tb: "\<bar>T\<bar> \<le> N * M"
    unfolding T_def N_def using bound by (rule abs_sum_list_le)
  have mu: "\<bar>T / N\<bar> \<le> M"
    using Tb N0 by (simp add: field_simps)
  have "\<bar>S / N - T / N\<bar> = \<bar>S - T\<bar> / N"
    using N0 by (simp add: diff_divide_distrib [symmetric])
  also have "\<dots> \<le> d"
    using err N0 by (simp add: field_simps)
  finally have zd: "\<bar>S / N - T / N\<bar> \<le> d" .
  with mu have z: "\<bar>S / N\<bar> \<le> M + d" by linarith
  with dM big have "\<bar>S / N\<bar> \<le> 2 * 2 ^ 1000 + 1" by linarith
  then have "\<bar>S / N\<bar> < 2 ^ 1023" by simp
  from round_double_near [OF this] obtain av
    where av: "round_double (S / N) = Some av"
      and near: "\<bar>av - S / N\<bar> \<le> u * \<bar>S / N\<bar> + h"
    unfolding u_def h_def by blast
  have "u * \<bar>S / N\<bar> \<le> u * (M + d)"
    using z u0 by (intro mult_left_mono) simp_all
  then have "u * \<bar>S / N\<bar> \<le> uM + u * d"
    by (simp add: uM_def algebra_simps)
  with near zd ud have "\<bar>av - T / N\<bar> \<le> d + 2 * uM + 2 * h"
    by linarith
  also have "d + 2 * uM + 2 * h = (N + 1) * M / 2 ^ 52 + 1 / 2 ^ 1073"
    by (simp add: d_def uM_def u_def h_def roundoff_def underflow_def algebra_simps)
  finally have "\<bar>av - sum_list xs / of_nat (length xs)\<bar> \<le>
      of_nat (length xs + 1) * M / 2 ^ 52 + 1 / 2 ^ 1073"
    by (simp add: T_def N_def add.commute)
  moreover have "average xs = Some av"
    using ne S av by (simp add: average_def divide_double_def N_def)
  ultimately show ?thesis by blast
qed

section \<open>Daily summaries: the groups\<close>

lemma set_first_seen [simp]: "set (first_seen xs) = set xs"
  by (induction xs) auto

lemma distinct_first_seen [simp]: "distinct (first_seen xs)"
  by (induction xs) (auto simp: distinct_removeAll)

lemma first_seen_snoc:
  "first_seen (xs @ [x]) = (if x \<in> set xs then first_seen xs else first_seen xs @ [x])"
  by (induction xs) auto

lemma first_seen_remdups: "first_seen xs = rev (remdups (rev xs))"
  by (induction xs rule: rev_induct) (auto simp: first_seen_snoc)

lemma map_of_keyed: "map_of (map (\<lambda>k. (k, f k)) ks) k = (if k \<in> set ks then Some (f k) else None)"
  by (induction ks) auto

lemma push_item_group:
  "g \<noteq> [] \<Longrightarrow> push_item x (day_of_group g) = day_of_group (g @ [x])"
  by (simp add: push_item_def day_of_group_def)

lemma push_item_fresh:
  "push_item x \<lparr>day_date = dt x * 1000, temps = [], conditions = [],
                        day_humidity = [], day_wind = [], icons = []\<rparr> = day_of_group [x]"
  by (simp add: push_item_def day_of_group_def)

lemma forEach_item_seen:
  assumes "date_key tz x \<in> set ks"
  shows "forEach_item tz x (map (\<lambda>k. (k, f k)) ks) =
         map (\<lambda>k. (k, if k = date_key tz x then push_item x (f k) else f k)) ks"
  using assms by (simp add: forEach_item_def date_key_def map_of_keyed)

lemma forEach_item_new:
  assumes "date_key tz x \<notin> set ks"
  shows "forEach_item tz x (map (\<lambda>k. (k, f k)) ks) =
         map (\<lambda>k. (k, f k)) ks @ [(date_key tz x, day_of_group [x])]"
  using assms
  by (auto simp: forEach_item_def Let_def date_key_def map_of_keyed push_item_fresh)

lemma group_of_snoc:
  "group_of tz (xs @ [x]) k =
     (if date_key tz x = k then group_of tz xs k @ [x] else group_of tz xs k)"
  by (simp add: group_of_def)

lemma group_of_empty_iff: "group_of tz xs k = [] \<longleftrightarrow> k \<notin> set (map (date_key tz) xs)"
  by (auto simp: group_of_def filter_empty_conv)

lemma dailyData_groups:
  "fold (forEach_item tz) xs [] =
     map (\<lambda>k. (k, day_of_group (group_of tz xs k))) (first_seen (map (date_key tz) xs))"
proof (induction xs rule: rev_induct)
  case Nil
  show ?case by simp
next
  case (snoc x xs)
  let ?k = "date_key tz x"
  let ?ks = "first_seen (map (date_key tz) xs)"
  have step: "fold (forEach_item tz) (xs @ [x]) [] =
      forEach_item tz x (map (\<lambda>k. (k, day_of_group (group_of tz xs k))) ?ks)"
    using snoc.IH by simp
  show ?case
  proof (cases "?k \<in> set (map (date_key tz) xs)")
    case True
    then have ne: "group_of tz xs ?k \<noteq> []"
      by (simp add: group_of_empty_iff)
    have "forEach_item tz x (map (\<lambda>k. (k, day_of_group (group_of tz xs k))) ?ks) =
          map (\<lambda>k. (k, if k = ?k then push_item x (day_of_group (group_of tz xs k))
                        else day_of_group (group_of tz xs k))) ?ks"
      using True by (intro forEach_item_seen) simp
    also have "\<dots> = map (\<lambda>k. (k, day_of_group (group_of tz (xs @ [x]) k))) ?ks"
      using ne by (auto simp: group_of_snoc push_item_group)
    finally show ?thesis
      using True step by (simp add: first_seen_snoc)
  next
    case False
    then have e: "group_of tz xs ?k = []"
      by (simp add: group_of_empty_iff)
    have "forEach_item tz x (map (\<lambda>k. (k, day_of_group (group_of tz xs k))) ?ks) =
          map (\<lambda>k. (k, day_of_group (group_of tz xs k))) ?ks @ [(?k, day_of_group [x])]"
      using False by (intro forEach_item_new) simp
    also have "\<dots> = map (\<lambda>k. (k, day_of_group (group_of tz (xs @ [x]) k))) (?ks @ [?k])"
      using False e by (auto simp: group_of_snoc)
    finally show ?thesis
      using False step by (simp add: first_seen_snoc)
  qed
qed


lemma processForecastData_refine:
  "processForecastData tz xs =
     map (\<lambda>k. summarise (day_of_group (group_of tz xs k)))
       (take 5 (first_seen (map (date_key tz) xs)))"
  by (simp add: processForecastData_def dailyData_groups take_map comp_def)

lemma Math_min_Min: "xs \<noteq> [] \<Longrightarrow> Math_min xs = Some (Min (set xs))"
  by (cases xs) (simp_all add: Min.set_eq_fold [symmetric] del: set_simps)

lemma Math_max_Max: "xs \<noteq> [] \<Longrightarrow> Math_max xs = Some (Max (set xs))"
  by (cases xs) (simp_all add: Max.set_eq_fold [symmetric] del: set_simps)

lemma sum_list_lower: "\<forall>x\<in>set xs. lo \<le> x \<Longrightarrow> of_nat (length xs) * lo \<le> sum_list (xs::rat list)"
  by (induction xs) (auto simp: algebra_simps)

lemma sum_list_upper: "\<forall>x\<in>set xs. x \<le> hi \<Longrightarrow> sum_list (xs::rat list) \<le> of_nat (length xs) * hi"
  by (induction xs) (auto simp: algebra_simps)

lemma mean_between:
  assumes "xs \<noteq> ([]::rat list)"
  shows "Min (set xs) \<le> sum_list xs / of_nat (length xs)"
    and "sum_list xs / of_nat (length xs) \<le> Max (set xs)"
proof -
  have pos: "(0::rat) < of_nat (length xs)"
    using assms by simp
  have "of_nat (length xs) * Min (set xs) \<le> sum_list xs"
    by (rule sum_list_lower) simp
  then show "Min (set xs) \<le> sum_list xs / of_nat (length xs)"
    using pos by (simp add: pos_le_divide_eq mult.commute)
  have "sum_list xs \<le> of_nat (length xs) * Max (set xs)"
    by (rule sum_list_upper) simp
  then show "sum_list xs / of_nat (length xs) \<le> Max (set xs)"
    using pos by (simp add: pos_divide_le_eq mult.commute)
qed

lemma first_seen_const:
  "xs \<noteq> [] \<Longrightarrow> \<forall>x\<in>set xs. x = k \<Longrightarrow> first_seen xs = [k]"
proof (induction xs)
  case Nil
  then show ?case by simp
next
  case (Cons x xs)
  then show ?case by (cases "xs = []") auto
qed

text \<open>
  C2. The summaries are those of the groups of items that share a calendar date, one
  per distinct date, in the order in which the dates are first met in the input, and
  only the first five of them; every such group is non-empty, and the empty input gives
  the empty list.
\<close>

theorem processForecastData_groups:
  "processForecastData tz [] = [] \<and>
   processForecastData tz xs =
     map (\<lambda>k. summarise (day_of_group (group_of tz xs k)))
       (take 5 (first_seen (map (date_key tz) xs))) \<and>
   (\<forall>k \<in> set (first_seen (map (date_key tz) xs)). group_of tz xs k \<noteq> [])"
  by (simp add: processForecastData_refine group_of_empty_iff)

theorem processForecastData_groups_witness:
  "map date (processForecastData utc_day seven_days) =
     [1717372800000, 1717200000000, 1717286400000, 1717459200000, 1717545600000] \<and>
   map tempAvg (processForecastData utc_day seven_days) =
     [Some 30, Some 11, Some 20, Some 40, Some 50] \<and>
   group_of utc_day seven_days 19875 \<noteq> []"
proof -
  have "19875 \<in> set (first_seen (map (date_key utc_day) seven_days))"
    by code_simp
  with processForecastData_groups [of utc_day seven_days]
  have "group_of utc_day seven_days 19875 \<noteq> []"
    by blast
  moreover have "map date (processForecastData utc_day seven_days) =
     [1717372800000, 1717200000000, 1717286400000, 1717459200000, 1717545600000]"
    by code_simp
  moreover have "map tempAvg (processForecastData utc_day seven_days) =
     [Some 30, Some 11, Some 20, Some 40, Some 50]"
    by code_simp
  ultimately show ?thesis by simp
qed

section \<open>Daily summaries: minimum, mean and maximum\<close>

lemma summary_of_date:
  assumes "d \<in> set (processForecastData tz xs)"
  shows "group_of tz xs (tz (date d)) \<noteq> [] \<and>
         d = summarise (day_of_group (group_of tz xs (tz (date d))))"
proof -
  from assms obtain k where k: "k \<in> set (map (date_key tz) xs)"
    and d: "d = summarise (day_of_group (group_of tz xs k))"
    unfolding processForecastData_refine using in_set_takeD by fastforce
  let ?G = "group_of tz xs k"
  have ne: "?G \<noteq> []"
    using k by (simp add: group_of_empty_iff)
  then have "hd ?G \<in> set ?G" by simp
  then have "date_key tz (hd ?G) = k"
    by (simp add: group_of_def)
  then have "tz (date d) = k"
    by (simp add: d summarise_def day_of_group_def date_key_def)
  with ne d show ?thesis by simp
qed

lemma abs_le_max_abs:
  fixes x :: rat
  shows "lo \<le> x \<Longrightarrow> x \<le> hi \<Longrightarrow> \<bar>x\<bar> \<le> max \<bar>lo\<bar> \<bar>hi\<bar>"
  by (simp add: abs_le_iff max_def) linarith

text \<open>
  C1, as the claim states it, fails: three samples of one day with the temperature 0.1
  have \<open>tempMin = tempMax = 0.1\<close>, and the sum \<open>0.1 + 0.1 + 0.1\<close> rounds to
  0.30000000000000004, a third of which rounds to 0.10000000000000002, above \<open>tempMax\<close>.
\<close>

theorem daily_temps_ordered_counterexample:
  "processForecastData utc_day three_tenths =
     [\<lparr>date = 1717200000000,
       tempMin = Some (3602879701896397 / 36028797018963968),
       tempMax = Some (3602879701896397 / 36028797018963968),
       tempAvg = Some (7205759403792795 / 72057594037927936),
       condition = Some ''Clear'', humidity = Some 50, wind = Some 3, icon = Some ''01d''\<rparr>] \<and>
   \<not> list_all temps_ordered (processForecastData utc_day three_tenths)"
  by code_simp

text \<open>With the temperature 0.7 the mean is 0.6999999999999998, below \<open>tempMin\<close>.\<close>

lemma daily_temps_below_minimum:
  "map tempMin (processForecastData utc_day three_of_seven_tenths) =
     [Some (3152519739159347 / 4503599627370496)] \<and>
   map tempAvg (processForecastData utc_day three_of_seven_tenths) =
     [Some (6305039478318693 / 9007199254740992)] \<and>
   \<not> list_all temps_ordered (processForecastData utc_day three_of_seven_tenths)"
  by code_simp

text \<open>
  C1, amended. For a list of at most \<open>2 ^ 20\<close> samples with temperatures of at most
  \<open>2 ^ 1000\<close> in absolute value, every summary that \<open>processForecastData\<close> returns
  belongs to the non-empty group of the samples of its own date; its \<open>tempMin\<close> and
  \<open>tempMax\<close> are the least and the greatest temperature of the group, the arithmetic
  mean of the group lies between them, and its \<open>tempAvg\<close> is finite and differs from
  that mean by at most \<open>eps = (n + 1) * max \<bar>tempMin\<bar> \<bar>tempMax\<bar> / 2 ^ 52 + 1 / 2 ^ 1073\<close>,
  where \<open>n\<close> is the number of samples of the group: so
  \<open>tempMin - eps \<le> tempAvg \<le> tempMax + eps\<close>.
\<close>

theorem daily_temps_within_rounding:
  assumes "length xs \<le> 2 ^ 20" and "\<forall>item \<in> set xs. \<bar>main_temp item\<bar> \<le> 2 ^ 1000"
  shows "\<forall>d \<in> set (processForecastData tz xs).
           (let g = map main_temp (group_of tz xs (tz (date d)));
                lo = Min (set g);
                hi = Max (set g);
                mean = sum_list g / of_nat (length g);
                eps = of_nat (length g + 1) * max \<bar>lo\<bar> \<bar>hi\<bar> / 2 ^ 52 + 1 / 2 ^ 1073
            in g \<noteq> [] \<and> tempMin d = Some lo \<and> tempMax d = Some hi \<and>
               lo \<le> mean \<and> mean \<le> hi \<and>
               (\<exists>av. tempAvg d = Some av \<and> \<bar>av - mean\<bar> \<le> eps \<and>
                  lo - eps \<le> av \<and> av \<le> hi + eps))"
proof
  fix d
  assume "d \<in> set (processForecastData tz xs)"
  then have G: "group_of tz xs (tz (date d)) \<noteq> []"
    and d: "d = summarise (day_of_group (group_of tz xs (tz (date d))))"
    using summary_of_date by blast+
  define g where "g = map main_temp (group_of tz xs (tz (date d)))"
  define M where "M = max \<bar>Min (set g)\<bar> \<bar>Max (set g)\<bar>"
  define eps where "eps = of_nat (length g + 1) * M / 2 ^ 52 + 1 / 2 ^ 1073"
  have ne: "g \<noteq> []"
    using G by (simp add: g_def)
  have "length g \<le> length xs"
    by (simp add: g_def group_of_def)
  with assms(1) have len: "length g \<le> 2 ^ 20"
    by linarith
  have sub: "set g \<subseteq> main_temp ` set xs"
    by (auto simp: g_def group_of_def)
  have bound: "\<forall>x\<in>set g. \<bar>x\<bar> \<le> M"
    unfolding M_def by (intro ballI abs_le_max_abs) simp_all
  have "Min (set g) \<in> set g" "Max (set g) \<in> set g"
    using ne by simp_all
  with sub assms(2) have "\<bar>Min (set g)\<bar> \<le> 2 ^ 1000" "\<bar>Max (set g)\<bar> \<le> 2 ^ 1000"
    by auto
  then have big: "M \<le> 2 ^ 1000"
    by (simp add: M_def)
  from average_near [OF ne len bound big] obtain av
    where av: "average g = Some av"
      and near: "\<bar>av - sum_list g / of_nat (length g)\<bar> \<le> eps"
    unfolding eps_def by blast
  have fields: "tempMin d = Some (Min (set g))" "tempMax d = Some (Max (set g))"
    "tempAvg d = Some av"
    using ne av by (subst d, simp add: summarise_def day_of_group_def Math_min_Min Math_max_Max
        g_def del: set_map)+
  from mean_between [OF ne] near
  have "Min (set g) \<le> sum_list g / of_nat (length g)"
    "sum_list g / of_nat (length g) \<le> Max (set g)"
    "Min (set g) - eps \<le> av" "av \<le> Max (set g) + eps"
    by linarith+
  with ne fields near show "let g = map main_temp (group_of tz xs (tz (date d)));
                lo = Min (set g);
                hi = Max (set g);
                mean = sum_list g / of_nat (length g);
                eps = of_nat (length g + 1) * max \<bar>lo\<bar> \<bar>hi\<bar> / 2 ^ 52 + 1 / 2 ^ 1073
            in g \<noteq> [] \<and> tempMin d = Some lo \<and> tempMax d = Some hi \<and>
               lo \<le> mean \<and> mean \<le> hi \<and>
               (\<exists>av. tempAvg d = Some av \<and> \<bar>av - mean\<bar> \<le> eps \<and>
                  lo - eps \<le> av \<and> av \<le> hi + eps)"
    unfolding Let_def g_def [symmetric] M_def [symmetric] eps_def [symmetric] by blast
qed

theorem daily_temps_within_rounding_witness:
  "\<exists>d \<in> set (processForecastData utc_day june_first).
     tempMin d = Some 17 \<and> tempMax d = Some 24 \<and>
     (\<exists>av. tempAvg d = Some av \<and>
        17 - (9 * 24 / 2 ^ 52 + 1 / 2 ^ 1073) \<le> av \<and>
        av \<le> 24 + (9 * 24 / 2 ^ 52 + 1 / 2 ^ 1073))"
proof -
  let ?d = "\<lparr>date = 1717200000000, tempMin = Some 17, tempMax = Some 24, tempAvg = Some 20.5,
     condition = Some ''Clear'', humidity = Some 50, wind = Some 3, icon = Some ''01d''\<rparr>"
  have mem: "?d \<in> set (processForecastData utc_day june_first)"
    by code_simp
  have len: "length june_first \<le> 2 ^ 20"
    by (simp add: june_first_def)
  have bound: "\<forall>item \<in> set june_first. \<bar>main_temp item\<bar> \<le> 2 ^ 1000"
    by (simp add: june_first_def sample_def)
  have g: "map main_temp (group_of utc_day june_first (utc_day (date ?d))) =
      [18, 20, 22, 24, 23, 21, 19, 17]"
    by code_simp
  from daily_temps_within_rounding [OF len bound, of utc_day, rule_format, OF mem]
  have "\<exists>av. tempAvg ?d = Some av \<and>
        17 - (9 * 24 / 2 ^ 52 + 1 / 2 ^ 1073) \<le> av \<and>
        av \<le> 24 + (9 * 24 / 2 ^ 52 + 1 / 2 ^ 1073)"
    unfolding Let_def g by simp blast
  with mem show ?thesis
    by (intro bexI [of _ ?d]) simp_all
qed

section \<open>Daily summaries: the samples of 2024-06-01\<close>

text \<open>The sums 18, 38, 60, 84, 107, 128, 147, 164 and the quotient 20.5 are doubles.\<close>

lemma average_june_first:
  "average [18, 20, 22, 24, 23, 21, 19, 17] = Some (41 / 2)"
  by code_simp

lemma getMostFrequent_june_first:
  "getMostFrequent
     [''Clear'', ''Clear'', ''Clouds'', ''Clear'', ''Rain'', ''Clear'', ''Clear'', ''Clear'']
   = Some ''Clear''"
  by code_simp

text \<open>
  C8. Eight samples of one calendar date with the temperatures 18, 20, 22, 24, 23, 21,
  19, 17 and the conditions Clear, Clear, Clouds, Clear, Rain, Clear, Clear, Clear give
  one summary, with \<open>tempMin = 17\<close>, \<open>tempMax = 24\<close>, \<open>tempAvg = 20.5\<close> and the
  condition Clear.
\<close>

theorem june_first_summary:
  assumes "map main_temp xs = [18, 20, 22, 24, 23, 21, 19, 17]"
    and "map weather_main xs =
      [''Clear'', ''Clear'', ''Clouds'', ''Clear'', ''Rain'', ''Clear'', ''Clear'', ''Clear'']"
    and "\<forall>item \<in> set xs. date_key tz item = k"
  shows "\<exists>d. processForecastData tz xs = [d] \<and> tempMin d = Some 17 \<and> tempMax d = Some 24 \<and>
           tempAvg d = Some 20.5 \<and> condition d = Some ''Clear''"
proof -
  have ne: "xs \<noteq> []"
    using assms(1) by auto
  have keys: "first_seen (map (date_key tz) xs) = [k]"
    using ne assms(3) by (intro first_seen_const) auto
  have group: "group_of tz xs k = xs"
    using assms(3) by (simp add: group_of_def)
  have "processForecastData tz xs = [summarise (day_of_group xs)]"
    by (simp add: processForecastData_refine keys group)
  moreover have "tempMin (summarise (day_of_group xs)) = Some 17"
    "tempMax (summarise (day_of_group xs)) = Some 24"
    "tempAvg (summarise (day_of_group xs)) = Some 20.5"
    by (simp_all add: summarise_def day_of_group_def assms(1) average_june_first)
  moreover have "condition (summarise (day_of_group xs)) = Some ''Clear''"
    by (simp add: summarise_def day_of_group_def assms(2) getMostFrequent_june_first)
  ultimately show ?thesis by simp
qed

theorem june_first_summary_witness:
  "\<exists>d. processForecastData utc_day june_first = [d] \<and> tempMin d = Some 17 \<and>
     tempMax d = Some 24 \<and> tempAvg d = Some 20.5 \<and> condition d = Some ''Clear''"
proof -
  have "map main_temp june_first = [18, 20, 22, 24, 23, 21, 19, 17]"
    by (simp add: june_first_def sample_def)
  moreover have "map weather_main june_first =
      [''Clear'', ''Clear'', ''Clouds'', ''Clear'', ''Rain'', ''Clear'', ''Clear'', ''Clear'']"
    by (simp add: june_first_def sample_def)
  moreover have "\<forall>item \<in> set june_first. date_key utc_day item = 19875"
    by code_simp
  ultimately show ?thesis
    by (rule june_first_summary)
qed

section \<open>Daily summaries: the dominant condition\<close>

lemma count_list_pos_iff: "0 < count_list xs y \<longleftrightarrow> y \<in> set xs"
  by (induction xs) auto

lemma counts_get_own:
  "x \<notin> set Object_prototype_keys \<Longrightarrow> counts_get m x = m x"
  by (simp add: counts_get_def split: option.splits)

lemma counts_get_upd: "counts_get (m(x \<mapsto> v)) x = Some v"
  by (simp add: counts_get_def)

lemma counted_step:
  assumes inv: "counted p st" and x: "x \<notin> set Object_prototype_keys"
  shows "counted (p @ [x]) (count_item x st)"
proof -
  let ?n = "Suc (count_list p x)"
  let ?counts = "(counts st)(x \<mapsto> Num ?n)"
  have cnt: "\<forall>y. counts st y = (if y \<in> set p then Some (Num (count_list p y)) else None)"
    and le: "\<forall>y. count_list p y \<le> maxCount st"
    using inv by (simp_all add: counted_def)
  have inc: "incremented (counts_get (counts st) x) = Num ?n"
    using x cnt by (simp add: counts_get_own incremented_def count_list_0_iff)
  have counts': "\<forall>y. ?counts y =
      (if y \<in> set (p @ [x]) then Some (Num (count_list (p @ [x]) y)) else None)"
    using cnt by auto
  have snoc_count: "\<And>y. count_list (p @ [x]) y = (if y = x then ?n else count_list p y)"
    by simp
  show ?thesis
  proof (cases "?n > maxCount st")
    case True
    then have st': "count_item x st = \<lparr>counts = ?counts, maxCount = ?n, maxItem = Some x\<rparr>"
      by (simp add: count_item_def inc counts_get_upd Let_def)
    have below: "\<forall>y. count_list p y < ?n"
      using le True by (metis le_less_trans)
    then have "\<forall>y. count_list (p @ [x]) y \<le> ?n"
      by (simp add: less_imp_le)
    moreover have "\<exists>q r t. p @ [x] = q @ r # t \<and> Some x = Some r \<and>
        count_list (q @ [r]) r = ?n \<and> (\<forall>y. count_list q y < ?n)"
      using below by (intro exI [of _ p] exI [of _ x] exI [of _ "[]"]) simp
    ultimately show ?thesis
      unfolding counted_def st' using counts' by simp
  next
    case False
    then have st': "count_item x st = st\<lparr>counts := ?counts\<rparr>"
      by (simp add: count_item_def inc counts_get_upd Let_def)
    have ne: "p \<noteq> []"
      using False inv by (auto simp: counted_def)
    then obtain q r t where w: "p = q @ r # t" "maxItem st = Some r"
      "count_list (q @ [r]) r = maxCount st" "\<forall>y. count_list q y < maxCount st"
      using inv unfolding counted_def by blast
    have "\<forall>y. count_list (p @ [x]) y \<le> maxCount st"
      using le False by (simp add: snoc_count not_less)
    moreover have "\<exists>q r t. p @ [x] = q @ r # t \<and> maxItem st = Some r \<and>
        count_list (q @ [r]) r = maxCount st \<and> (\<forall>y. count_list q y < maxCount st)"
      using w by (intro exI [of _ q] exI [of _ r] exI [of _ "t @ [x]"]) simp
    ultimately show ?thesis
      unfolding counted_def st' using counts' by simp
  qed
qed

lemma counted_init:
  "counted [] \<lparr>counts = Map.empty, maxCount = 0, maxItem = a\<rparr>"
  by (simp add: counted_def)

lemma counted_fold:
  assumes "\<forall>x \<in> set p. x \<notin> set Object_prototype_keys"
  shows "counted p (fold count_item p \<lparr>counts = Map.empty, maxCount = 0, maxItem = a\<rparr>)"
  using assms
proof (induction p rule: rev_induct)
  case Nil
  show ?case by (simp add: counted_init)
next
  case (snoc x p)
  then show ?case by (simp add: counted_step)
qed

text \<open>
  The summary of a day takes its condition and its icon from \<open>getMostFrequent\<close>.
\<close>

lemma summarise_dominant:
  "condition (summarise (day_of_group g)) = getMostFrequent (map weather_main g)"
  "icon (summarise (day_of_group g)) = getMostFrequent (map weather_icon g)"
  by (simp_all add: summarise_def day_of_group_def)

text \<open>
  C3, as the claim states it, fails: in Clear, Rain, Rain, Clear both conditions occur
  twice and Clear occurs first, but \<open>getMostFrequent\<close> returns Rain.
\<close>

theorem getMostFrequent_tie_counterexample:
  "getMostFrequent tie = Some ''Rain'' \<and> \<not> dominant_first_seen tie ''Rain'' \<and>
   dominant_first_seen tie ''Clear''"
  by code_simp

text \<open>
  An item that names a property of \<open>Object.prototype\<close> is never counted: its entry in
  \<open>counts\<close> is not a number, and a less frequent item is returned.
\<close>

lemma getMostFrequent_inherited_key:
  "getMostFrequent [''constructor'', ''constructor'', ''Rain''] = Some ''Rain''"
  by code_simp

text \<open>
  C3, amended. For a non-empty array none of whose items is the name of a property of
  \<open>Object.prototype\<close>, \<open>getMostFrequent\<close> returns an item \<open>r\<close> of the greatest
  frequency, and every other item of that frequency occurs again after the last
  occurrence of \<open>r\<close>: among the most frequent items, \<open>r\<close> is the one whose count is
  complete first.
\<close>

theorem getMostFrequent_dominant:
  assumes "arr \<noteq> []" and "\<forall>x \<in> set arr. x \<notin> set Object_prototype_keys"
  shows "\<exists>r q t. getMostFrequent arr = Some r \<and> arr = q @ r # t \<and> r \<notin> set t \<and>
           (\<forall>y. count_list arr y \<le> count_list arr r) \<and>
           (\<forall>y. y \<noteq> r \<and> count_list arr y = count_list arr r \<longrightarrow> y \<in> set t)"
proof -
  let ?st = "fold count_item arr
       \<lparr>counts = Map.empty, maxCount = 0,
        maxItem = (case arr of [] \<Rightarrow> None | x # _ \<Rightarrow> Some x)\<rparr>"
  have inv: "counted arr ?st"
    using assms(2) by (rule counted_fold)
  then obtain q r t where w: "arr = q @ r # t" "maxItem ?st = Some r"
      "count_list (q @ [r]) r = maxCount ?st" "\<forall>y. count_list q y < maxCount ?st"
    using assms(1) unfolding counted_def by blast
  have le: "\<forall>y. count_list arr y \<le> maxCount ?st"
    using inv by (simp add: counted_def)
  have "count_list arr r = count_list (q @ [r]) r + count_list t r"
    by (subst w(1)) simp
  with w(3) le have max: "count_list arr r = maxCount ?st" and "count_list t r = 0"
    by (metis add.commute le_add1 le_antisym add_diff_cancel_left' diff_is_0_eq)+
  then have notin: "r \<notin> set t"
    by (simp add: count_list_0_iff)
  have tied: "y \<in> set t" if "y \<noteq> r" "count_list arr y = count_list arr r" for y
  proof -
    have "count_list arr y = count_list q y + count_list t y"
      using that(1) by (subst w(1)) simp
    with that(2) max w(4) have "0 < count_list t y"
      by (metis add.right_neutral less_irrefl not_gr_zero)
    then show ?thesis
      by (simp add: count_list_pos_iff)
  qed
  have "getMostFrequent arr = Some r"
    using w(2) by (simp add: getMostFrequent_def)
  then show ?thesis
    using w(1) notin le max tied by (metis)
qed

theorem getMostFrequent_dominant_witness:
  "getMostFrequent tie = Some ''Rain'' \<and>
   (\<exists>q t. tie = q @ ''Rain'' # t \<and> ''Rain'' \<notin> set t \<and> ''Clear'' \<in> set t)"
proof -
  have h1: "tie \<noteq> []" and h2: "\<forall>x \<in> set tie. x \<notin> set Object_prototype_keys"
    by code_simp+
  have r: "getMostFrequent tie = Some ''Rain''"
    by code_simp
  have c: "count_list tie ''Clear'' = count_list tie ''Rain''"
    by code_simp
  from getMostFrequent_dominant [OF h1 h2] r
  obtain q t where "tie = q @ ''Rain'' # t" "''Rain'' \<notin> set t"
    "\<forall>y. y \<noteq> ''Rain'' \<and> count_list tie y = count_list tie ''Rain'' \<longrightarrow> y \<in> set t"
    by auto
  moreover from this(3) c have "''Clear'' \<in> set t"
    by simp
  ultimately show ?thesis
    using r by blast
qed

section \<open>Saved cities: arrays of city objects\<close>

lemma some_same_place_all:
  "all_cities es \<Longrightarrow> some_same_place city es = Inr (\<exists>e \<in> set es. same_place city e)"
proof (induction es)
  case Nil
  show ?case by simp
next
  case (Cons e es)
  then show ?case
    by (cases e) (auto simp: all_cities_def same_place_def)
qed

lemma filter_id_all:
  "all_cities es \<Longrightarrow> filter_id cityId es = Inr (filter (\<lambda>e. \<not> has_id cityId e) es)"
proof (induction es)
  case Nil
  show ?case by simp
next
  case (Cons e es)
  then show ?case
    by (cases e) (auto simp: all_cities_def has_id_def)
qed

lemma json_entry_all: "all_cities es \<Longrightarrow> map json_entry es = es"
  by (induction es) (auto simp: all_cities_def json_entry_def split: entry.splits)

lemma all_cities_filter: "all_cities es \<Longrightarrow> all_cities (filter P es)"
  by (simp add: all_cities_def)

lemma map_json_entry: "Undefined \<notin> set es \<Longrightarrow> map json_entry es = es"
  by (induction es) (auto simp: json_entry_def split: entry.splits)

lemma getSavedCities_Some: "getSavedCities (Some cs) = cs"
  by (simp add: getSavedCities_def)

lemma json_entry_City: "json_entry (City c) = City c"
  by (simp add: json_entry_def)

lemma same_place_update:
  "same_place (city\<lparr>city_id := a, addedAt := b\<rparr>) e = same_place city e"
  by (cases e) (simp_all add: same_place_def)

lemma storage_addCity_ok:
  "all_cities (getSavedCities item) \<Longrightarrow> \<exists>item'. storage_addCity template c t t' item = Inr item'"
  by (simp add: storage_addCity_def some_same_place_all Let_def)

section \<open>Saved cities: adding\<close>

text \<open>
  C4. \<open>addCity\<close> returns \<open>false\<close> and leaves the cities, the selection and the stored
  item as they were when there are already six cities, and also when some city of the
  list has the latitude and the longitude of the new one. Otherwise it returns \<open>true\<close>
  and the list is the old one followed by the new city, with the id built from its
  coordinates and the time; that id is the id of no city already there whose own id was
  built so. (The lists in memory and in storage hold city objects only.)
\<close>

theorem addCity_cases:
  "(6 \<le> length (cities s) \<longrightarrow> addCity template city t1 t2 t3 t4 s = (Inr False, s)) \<and>
   (all_cities (cities s) \<and> (\<exists>e \<in> set (cities s). same_place city e) \<longrightarrow>
      addCity template city t1 t2 t3 t4 s = (Inr False, s)) \<and>
   (length (cities s) < 6 \<and> all_cities (cities s) \<and> all_cities (getSavedCities (storage s)) \<and>
    \<not> (\<exists>e \<in> set (cities s). same_place city e) \<longrightarrow>
      (\<exists>s'. addCity template city t1 t2 t3 t4 s = (Inr True, s') \<and>
         cities s' = cities s @
           [City (city\<lparr>city_id := Some (template (lat city) (lon city) t1), addedAt := Some t2\<rparr>)] \<and>
         selectedCities s' = selectedCities s \<and>
         ((\<forall>a b t a' b' t'. template a b t = template a' b' t' \<longrightarrow> a = a' \<and> b = b') \<and>
          (\<forall>e \<in> set (cities s). minted template e) \<longrightarrow>
            (\<forall>e \<in> set (cities s). \<not> has_id (template (lat city) (lon city) t1) e))))"
proof (intro conjI impI)
  assume "6 \<le> length (cities s)"
  then show "addCity template city t1 t2 t3 t4 s = (Inr False, s)"
    by (simp add: addCity_def canAddMore_def maxCities_def)
next
  assume "all_cities (cities s) \<and> (\<exists>e \<in> set (cities s). same_place city e)"
  then show "addCity template city t1 t2 t3 t4 s = (Inr False, s)"
    by (simp add: addCity_def some_same_place_all)
next
  assume a: "length (cities s) < 6 \<and> all_cities (cities s) \<and>
    all_cities (getSavedCities (storage s)) \<and> \<not> (\<exists>e \<in> set (cities s). same_place city e)"
  let ?new = "city\<lparr>city_id := Some (template (lat city) (lon city) t1), addedAt := Some t2\<rparr>"
  let ?s1 = "s\<lparr>cities := cities s @ [City ?new]\<rparr>"
  obtain item where item: "storage_addCity template ?new t3 t4 (storage ?s1) = Inr item"
    using a storage_addCity_ok [of "storage s" template ?new t3 t4] by auto
  have fresh: "\<not> has_id (template (lat city) (lon city) t1) e"
    if inj: "\<forall>a b t a' b' t'. template a b t = template a' b' t' \<longrightarrow> a = a' \<and> b = b'"
      and m: "\<forall>e \<in> set (cities s). minted template e" and e: "e \<in> set (cities s)" for e
  proof
    assume h: "has_id (template (lat city) (lon city) t1) e"
    then obtain c where c: "e = City c" "city_id c = Some (template (lat city) (lon city) t1)"
      by (auto simp: has_id_def split: entry.splits)
    from m e have "minted template e" by blast
    then obtain t where "city_id c = Some (template (lat c) (lon c) t)"
      by (auto simp: minted_def c(1))
    with c(2) inj have "lat c = lat city \<and> lon c = lon city"
      by (metis option.inject)
    then have "same_place city e"
      by (simp add: same_place_def c(1))
    with a e show False by blast
  qed
  have "addCity template city t1 t2 t3 t4 s = (Inr True, ?s1\<lparr>storage := item\<rparr>)"
    using a item by (simp add: addCity_def canAddMore_def maxCities_def some_same_place_all Let_def)
  then show "\<exists>s'. addCity template city t1 t2 t3 t4 s = (Inr True, s') \<and>
         cities s' = cities s @ [City ?new] \<and>
         selectedCities s' = selectedCities s \<and>
         ((\<forall>a b t a' b' t'. template a b t = template a' b' t' \<longrightarrow> a = a' \<and> b = b') \<and>
          (\<forall>e \<in> set (cities s). minted template e) \<longrightarrow>
            (\<forall>e \<in> set (cities s). \<not> has_id (template (lat city) (lon city) t1) e))"
    using fresh by auto
qed

theorem addCity_cases_witness:
  "addCity triple paris 2000 2000 2000 2000 six_cities = (Inr False, six_cities) \<and>
   addCity triple london 2000 2000 2000 2000 one_city = (Inr False, one_city) \<and>
   (\<exists>s'. addCity triple paris 2000 2000 2000 2000 one_city = (Inr True, s') \<and>
      cities s' = [saved london 1000, saved paris 2000] \<and>
      (\<forall>e \<in> set (cities one_city). \<not> has_id (triple (lat paris) (lon paris) 2000) e))"
proof -
  have full: "6 \<le> length (cities six_cities)"
    by code_simp
  have dup: "all_cities (cities one_city) \<and> (\<exists>e \<in> set (cities one_city). same_place london e)"
    by code_simp
  have new: "length (cities one_city) < 6 \<and> all_cities (cities one_city) \<and>
      all_cities (getSavedCities (storage one_city)) \<and>
      \<not> (\<exists>e \<in> set (cities one_city). same_place paris e)"
    by code_simp
  have inj: "\<forall>a b t a' b' t'. triple a b t = triple a' b' t' \<longrightarrow> a = a' \<and> b = b'"
    by (simp add: triple_def)
  have m: "\<forall>e \<in> set (cities one_city). minted triple e"
    by (auto simp: one_city_def dashboard_def saved_def minted_def)
  have app: "cities one_city @
      [City (paris\<lparr>city_id := Some (triple (lat paris) (lon paris) 2000), addedAt := Some 2000\<rparr>)]
      = [saved london 1000, saved paris 2000]"
    by (simp add: one_city_def dashboard_def saved_def)
  from addCity_cases [of six_cities triple paris 2000 2000 2000 2000] full
  have "addCity triple paris 2000 2000 2000 2000 six_cities = (Inr False, six_cities)"
    by blast
  moreover from addCity_cases [of one_city triple london 2000 2000 2000 2000] dup
  have "addCity triple london 2000 2000 2000 2000 one_city = (Inr False, one_city)"
    by blast
  moreover from addCity_cases [of one_city triple paris 2000 2000 2000 2000] new inj m
  have "\<exists>s'. addCity triple paris 2000 2000 2000 2000 one_city = (Inr True, s') \<and>
      cities s' = cities one_city @
        [City (paris\<lparr>city_id := Some (triple (lat paris) (lon paris) 2000), addedAt := Some 2000\<rparr>)] \<and>
      (\<forall>e \<in> set (cities one_city). \<not> has_id (triple (lat paris) (lon paris) 2000) e)"
    by blast
  ultimately show ?thesis
    by (simp only: app)
qed

section \<open>Saved cities: removing\<close>

text \<open>
  C7. \<open>removeCity\<close> does not fail; it removes from the list exactly the cities with
  the given id and keeps the others in their order, it leaves the list as it is when no
  city has that id, and it removes the id from the selection. (The lists in memory and in
  storage hold city objects only.)
\<close>

theorem removeCity_frame:
  assumes "all_cities (cities s)" and "all_cities (getSavedCities (storage s))"
  shows "\<exists>s'. removeCity cityId s = (Inr (), s') \<and>
           cities s' = filter (\<lambda>e. \<not> has_id cityId e) (cities s) \<and>
           ((\<forall>e \<in> set (cities s). \<not> has_id cityId e) \<longrightarrow> cities s' = cities s) \<and>
           selectedCities s' = filter (\<lambda>i. i \<noteq> cityId) (selectedCities s) \<and>
           set (selectedCities s') = set (selectedCities s) - {cityId}"
proof -
  have "removeCity cityId s =
      (Inr (), s\<lparr>cities := filter (\<lambda>e. \<not> has_id cityId e) (cities s),
                  storage := saveCities (filter (\<lambda>e. \<not> has_id cityId e) (getSavedCities (storage s))),
                  selectedCities := filter (\<lambda>i. i \<noteq> cityId) (selectedCities s)\<rparr>)"
    using assms by (simp add: removeCity_def storage_removeCity_def filter_id_all Let_def)
  then show ?thesis
    by (auto simp: filter_id_conv)
qed

theorem removeCity_frame_witness:
  "\<exists>s'. removeCity (triple (lat paris) (lon paris) 2000) three_cities = (Inr (), s') \<and>
      cities s' = [saved london 1000, saved (place 3) 3000] \<and>
      selectedCities s' = [triple (lat london) (lon london) 1000]"
proof -
  have h: "all_cities (cities three_cities)" "all_cities (getSavedCities (storage three_cities))"
    by code_simp+
  have "filter (\<lambda>e. \<not> has_id (triple (lat paris) (lon paris) 2000) e) (cities three_cities) =
      [saved london 1000, saved (place 3) 3000]"
    by code_simp
  moreover have "filter (\<lambda>i. i \<noteq> triple (lat paris) (lon paris) 2000) (selectedCities three_cities) =
      [triple (lat london) (lon london) 1000]"
    by code_simp
  ultimately show ?thesis
    using removeCity_frame [OF h, of "triple (lat paris) (lon paris) 2000"] by auto
qed

section \<open>Saved cities: the selection\<close>

lemma indexOf_ge: "- 1 \<le> indexOf xs y"
  by (induction xs) (auto simp: Let_def)

lemma indexOf_absent: "indexOf xs y = - 1 \<longleftrightarrow> y \<notin> set xs"
proof (induction xs)
  case Nil
  show ?case by simp
next
  case (Cons x xs)
  show ?case
    using Cons.IH indexOf_ge [of xs y] by (auto simp: Let_def)
qed

lemma splice_indexOf:
  "y \<in> set xs \<Longrightarrow>
     take (nat (indexOf xs y)) xs @ drop (Suc (nat (indexOf xs y))) xs = remove1 y xs"
proof (induction xs)
  case Nil
  then show ?case by simp
next
  case (Cons x xs)
  show ?case
  proof (cases "x = y")
    case True
    then show ?thesis by simp
  next
    case False
    with Cons.prems have y: "y \<in> set xs" by simp
    then have "indexOf xs y \<noteq> - 1"
      by (simp add: indexOf_absent)
    with indexOf_ge [of xs y] have "0 \<le> indexOf xs y" by linarith
    then have "nat (indexOf xs y + 1) = Suc (nat (indexOf xs y))"
      by linarith
    with False y Cons.IH \<open>indexOf xs y \<noteq> - 1\<close> show ?thesis
      by (simp add: Let_def)
  qed
qed

lemma toggleCitySelection_selected:
  "selectedCities (toggleCitySelection cityId s) =
     (if cityId \<in> set (selectedCities s) then remove1 cityId (selectedCities s)
      else selectedCities s @ [cityId])"
  by (simp add: toggleCitySelection_def Let_def indexOf_absent splice_indexOf)

lemma toggleCitySelection_others:
  "cities (toggleCitySelection cityId s) = cities s"
  "storage (toggleCitySelection cityId s) = storage s"
  by (simp_all add: toggleCitySelection_def Let_def)

text \<open>
  C9. For a selection without repeated ids, \<open>toggleCitySelection\<close> called twice with
  the same id gives back the same set of selected ids: the first call adds the id when
  it is absent and removes it when it is present, and the second call undoes that. The
  cities and the stored item are not touched, and when the id was absent the whole state
  is as before.
\<close>

theorem toggleCitySelection_twice:
  assumes "distinct (selectedCities s)"
  shows "set (selectedCities (toggleCitySelection cityId (toggleCitySelection cityId s))) =
           set (selectedCities s) \<and>
         distinct (selectedCities (toggleCitySelection cityId (toggleCitySelection cityId s))) \<and>
         (cityId \<in> set (selectedCities (toggleCitySelection cityId s)) \<longleftrightarrow>
            cityId \<notin> set (selectedCities s)) \<and>
         cities (toggleCitySelection cityId (toggleCitySelection cityId s)) = cities s \<and>
         storage (toggleCitySelection cityId (toggleCitySelection cityId s)) = storage s \<and>
         (cityId \<notin> set (selectedCities s) \<longrightarrow>
            toggleCitySelection cityId (toggleCitySelection cityId s) = s)"
proof (cases "cityId \<in> set (selectedCities s)")
  case True
  then show ?thesis
    using assms by (auto simp: toggleCitySelection_selected toggleCitySelection_others)
next
  case False
  then have "remove1 cityId (selectedCities s @ [cityId]) = selectedCities s"
    by (simp add: remove1_append)
  with False have "selectedCities (toggleCitySelection cityId (toggleCitySelection cityId s)) =
      selectedCities s"
    by (simp add: toggleCitySelection_selected)
  moreover from this have "toggleCitySelection cityId (toggleCitySelection cityId s) = s"
    by (simp add: toggleCitySelection_others)
  ultimately show ?thesis
    using assms False by (simp add: toggleCitySelection_selected toggleCitySelection_others)
qed

theorem toggleCitySelection_twice_witness:
  "selectedCities (toggleCitySelection 1 (toggleCitySelection 1 two_selected)) = [2, 1] \<and>
   set (selectedCities (toggleCitySelection 1 (toggleCitySelection 1 two_selected))) =
     set (selectedCities two_selected) \<and>
   toggleCitySelection 3 (toggleCitySelection 3 two_selected) = two_selected"
proof -
  have d: "distinct (selectedCities two_selected)"
    by (simp add: two_selected_def)
  have "3 \<notin> set (selectedCities two_selected)"
    by (simp add: two_selected_def)
  with toggleCitySelection_twice [OF d, of 3]
  have "toggleCitySelection 3 (toggleCitySelection 3 two_selected) = two_selected"
    by blast
  moreover have "selectedCities (toggleCitySelection 1 (toggleCitySelection 1 two_selected)) = [2, 1]"
    by code_simp
  ultimately show ?thesis
    using toggleCitySelection_twice [OF d, of 1] by simp
qed

section \<open>Saved cities: moving from an index outside the list\<close>

lemma splice_start_le: "splice_start i n \<le> n"
  by (auto simp: splice_start_def)

lemma moveCity_outside:
  assumes "int (length (cities s)) \<le> fromIndex"
  shows "moveCity fromIndex toIndex s =
     reorderCities (take (splice_start toIndex (length (cities s))) (cities s) @ Undefined #
        drop (splice_start toIndex (length (cities s))) (cities s)) s"
proof -
  have "splice_start fromIndex (length (cities s)) = length (cities s)"
    using assms by (auto simp: splice_start_def)
  then show ?thesis
    by (simp add: moveCity_def Let_def min_absorb1 splice_start_le)
qed

text \<open>
  C10, as the claim states it, fails: with one city and \<open>toIndex = 5\<close> the
  \<open>undefined\<close> entry is at position 1, and the list has no position 5.
\<close>

theorem moveCity_position_counterexample:
  "cities (moveCity 3 5 one_city) = [saved london 1000, Undefined] \<and>
   \<not> inserted_at (cities one_city) 5 Undefined (cities (moveCity 3 5 one_city))"
  by code_simp

text \<open>
  C10, amended. For a list of \<open>n\<close> cities and \<open>fromIndex \<ge> n\<close>, \<open>moveCity\<close> does not
  fail: it inserts an \<open>undefined\<close> entry at position \<open>min toIndex n\<close> when
  \<open>toIndex \<ge> 0\<close>, and at position \<open>max (n + toIndex) 0\<close> when \<open>toIndex < 0\<close>; the list
  has then \<open>n + 1\<close> entries, and it is stored with \<open>null\<close> in the place of
  \<open>undefined\<close>.
\<close>

theorem moveCity_from_outside:
  assumes "int (length (cities s)) \<le> fromIndex"
  shows "inserted_at (cities s)
           (if 0 \<le> toIndex then min (nat toIndex) (length (cities s))
            else nat (int (length (cities s)) + toIndex))
           Undefined (cities (moveCity fromIndex toIndex s)) \<and>
         length (cities (moveCity fromIndex toIndex s)) = length (cities s) + 1 \<and>
         Undefined \<in> set (cities (moveCity fromIndex toIndex s)) \<and>
         storage (moveCity fromIndex toIndex s) =
           Some (map json_entry (cities (moveCity fromIndex toIndex s))) \<and>
         length (getSavedCities (storage (moveCity fromIndex toIndex s))) = length (cities s) + 1 \<and>
         Null \<in> set (getSavedCities (storage (moveCity fromIndex toIndex s))) \<and>
         selectedCities (moveCity fromIndex toIndex s) = selectedCities s"
proof -
  let ?p = "splice_start toIndex (length (cities s))"
  have p: "?p = (if 0 \<le> toIndex then min (nat toIndex) (length (cities s))
            else nat (int (length (cities s)) + toIndex))"
    by (auto simp: splice_start_def)
  have c: "cities (moveCity fromIndex toIndex s) = take ?p (cities s) @ Undefined # drop ?p (cities s)"
    and st: "storage (moveCity fromIndex toIndex s) =
      Some (map json_entry (take ?p (cities s) @ Undefined # drop ?p (cities s)))"
    and sel: "selectedCities (moveCity fromIndex toIndex s) = selectedCities s"
    using assms
    by (simp_all add: moveCity_outside reorderCities_def updateCityOrder_def saveCities_def)
  have "inserted_at (cities s) ?p Undefined (cities (moveCity fromIndex toIndex s))"
    by (simp add: inserted_at_def c splice_start_le)
  moreover have "length (cities (moveCity fromIndex toIndex s)) = length (cities s) + 1"
    using splice_start_le [of toIndex "length (cities s)"] by (simp add: c)
  moreover have "Undefined \<in> set (cities (moveCity fromIndex toIndex s))"
    by (simp add: c)
  moreover have "length (getSavedCities (storage (moveCity fromIndex toIndex s))) = length (cities s) + 1"
    using splice_start_le [of toIndex "length (cities s)"] by (simp add: st getSavedCities_def)
  moreover have "Null \<in> set (getSavedCities (storage (moveCity fromIndex toIndex s)))"
    by (simp add: st getSavedCities_def json_entry_def)
  ultimately show ?thesis
    using st sel c by (simp only: p)
qed

theorem moveCity_from_outside_witness:
  "cities (moveCity 3 1 three_cities) =
     [saved london 1000, Undefined, saved paris 2000, saved (place 3) 3000] \<and>
   getSavedCities (storage (moveCity 3 1 three_cities)) =
     [saved london 1000, Null, saved paris 2000, saved (place 3) 3000] \<and>
   inserted_at (cities three_cities) 1 Undefined (cities (moveCity 3 1 three_cities)) \<and>
   cities (moveCity 3 5 three_cities) =
     [saved london 1000, saved paris 2000, saved (place 3) 3000, Undefined] \<and>
   inserted_at (cities three_cities) 3 Undefined (cities (moveCity 3 5 three_cities))"
proof -
  have h: "int (length (cities three_cities)) \<le> 3"
    by code_simp
  have p1: "(if (0::int) \<le> 1 then min (nat 1) (length (cities three_cities))
      else nat (int (length (cities three_cities)) + 1)) = 1"
    and p5: "(if (0::int) \<le> 5 then min (nat 5) (length (cities three_cities))
      else nat (int (length (cities three_cities)) + 5)) = 3"
    by code_simp+
  have "inserted_at (cities three_cities) 1 Undefined (cities (moveCity 3 1 three_cities))"
    using moveCity_from_outside [OF h, of 1] by (simp only: p1)
  moreover have "inserted_at (cities three_cities) 3 Undefined (cities (moveCity 3 5 three_cities))"
    using moveCity_from_outside [OF h, of 5] by (simp only: p5)
  moreover have "cities (moveCity 3 1 three_cities) =
     [saved london 1000, Undefined, saved paris 2000, saved (place 3) 3000]"
    by code_simp
  moreover have "getSavedCities (storage (moveCity 3 1 three_cities)) =
     [saved london 1000, Null, saved paris 2000, saved (place 3) 3000]"
    by code_simp
  moreover have "cities (moveCity 3 5 three_cities) =
     [saved london 1000, saved paris 2000, saved (place 3) 3000, Undefined]"
    by code_simp
  ultimately show ?thesis by simp
qed

section \<open>Saved cities: what is stored\<close>

text \<open>
  C5. The claim is that after each of \<open>addCity\<close>, \<open>removeCity\<close>, \<open>reorderCities\<close>
  and \<open>moveCity\<close> the stored list is the list in memory, so that \<open>reloadCities\<close>
  reads the same list. For \<open>addCity\<close> this is not so: \<open>addCity\<close> of useCities.js
  builds the new city with an id and a date from its own readings of the clock, and
  \<open>addCity\<close> of storage.js builds the id and the date again from later readings. When
  the clock has moved on by a millisecond in between, the stored city differs from the
  one in memory, and \<open>reloadCities\<close> gives another list.
\<close>

theorem addCity_stored_differs:
  "in_sync empty_dashboard \<and>
   fst (addCity triple london 1000 1000 1001 1001 empty_dashboard) = Inr True \<and>
   cities (snd (addCity triple london 1000 1000 1001 1001 empty_dashboard)) = [saved london 1000] \<and>
   getSavedCities (storage (snd (addCity triple london 1000 1000 1001 1001 empty_dashboard))) =
     [saved london 1001] \<and>
   \<not> in_sync (snd (addCity triple london 1000 1000 1001 1001 empty_dashboard)) \<and>
   cities (reloadCities (snd (addCity triple london 1000 1000 1001 1001 empty_dashboard))) \<noteq>
     cities (snd (addCity triple london 1000 1000 1001 1001 empty_dashboard))"
  by code_simp

text \<open>
  A city added so is not removed from storage by \<open>removeCity\<close>, which looks for the id
  held in memory: after a reload the city is back.
\<close>

lemma removeCity_leaves_stored:
  "cities (snd (removeCity (triple (lat london) (lon london) 1000)
      (snd (addCity triple london 1000 1000 1001 1001 empty_dashboard)))) = [] \<and>
   cities (reloadCities (snd (removeCity (triple (lat london) (lon london) 1000)
      (snd (addCity triple london 1000 1000 1001 1001 empty_dashboard))))) = [saved london 1001]"
  by code_simp

text \<open>
  The other operations keep the stored list equal to the list in memory, and so does
  \<open>addCity\<close> when both functions read the same time.
\<close>

lemma reorderCities_in_sync:
  "Undefined \<notin> set newOrder \<Longrightarrow> in_sync (reorderCities newOrder s)"
  by (simp add: in_sync_def reorderCities_def updateCityOrder_def saveCities_def
      getSavedCities_def map_json_entry)

lemma removeCity_in_sync:
  assumes "in_sync s" and "all_cities (cities s)"
  shows "in_sync (snd (removeCity cityId s))"
proof -
  have "all_cities (getSavedCities (storage s))"
    using assms by (simp add: in_sync_def)
  then show ?thesis
    using assms
    by (simp add: removeCity_def storage_removeCity_def filter_id_all Let_def in_sync_def
        saveCities_def json_entry_all all_cities_filter getSavedCities_def)
qed

lemma moveCity_in_sync:
  assumes "Undefined \<notin> set (cities s)" and "0 \<le> fromIndex" and "fromIndex < int (length (cities s))"
  shows "in_sync (moveCity fromIndex toIndex s)"
proof -
  let ?a = "splice_start fromIndex (length (cities s))"
  have a: "?a < length (cities s)"
    using assms(2,3) by (auto simp: splice_start_def)
  then have "take 1 (drop ?a (cities s)) = [cities s ! ?a]"
    by (simp add: Cons_nth_drop_Suc [symmetric])
  moreover have "cities s ! ?a \<noteq> Undefined"
    using a assms(1) by (metis nth_mem)
  moreover have "Undefined \<notin> set (take i (cities s))" "Undefined \<notin> set (drop i (cities s))" for i
    using assms(1) by (auto dest: in_set_takeD in_set_dropD)
  ultimately show ?thesis
    unfolding moveCity_def Let_def
    by (intro reorderCities_in_sync) (auto dest: in_set_takeD in_set_dropD)
qed

lemma addCity_in_sync:
  assumes "in_sync s" and "all_cities (cities s)"
  shows "in_sync (snd (addCity template city t1 t2 t1 t2 s))"
proof -
  have stored: "getSavedCities (storage s) = cities s"
    using assms(1) by (simp add: in_sync_def)
  have "all_cities (cities s @ [City c])" for c
    using assms(2) by (simp add: all_cities_def)
  then show ?thesis
    using assms stored
    by (auto simp: addCity_def storage_addCity_def some_same_place_all Let_def in_sync_def
        saveCities_def json_entry_all same_place_update getSavedCities_Some json_entry_City)
qed

end
